theory Spec2Isabelle
  imports Complex_Main
begin

section \<open>The SDK bridge (src/sdk-bridge.ts)\<close>

subsection \<open>EventBus\<close>

text \<open>
  A handler is a JavaScript callback: it runs on the event and on the mutable world it
  closes over, and either returns or throws. Whatever it wrote before throwing stays
  written, so both outcomes carry the world they leave behind. The world does not hold
  the bus: no handler of the source subscribes or unsubscribes while an event is emitted.
\<close>

datatype 'w outcome = Returned 'w | Threw 'w

fun after :: "'w outcome \<Rightarrow> 'w" where
  "after (Returned w) = w"
| "after (Threw w) = w"

type_synonym ('e, 'w) EventHandler = "'e \<Rightarrow> 'w \<Rightarrow> 'w outcome"

text \<open>
  \<^verbatim>\<open>private handlers = new Set<EventHandler>()\<close>: a JavaScript Set iterates in insertion
  order and holds each function reference once. A reference is a number here, paired with
  the behaviour of the function it denotes.
\<close>

record ('e, 'w) EventBus =
  handlers :: "(nat \<times> ('e, 'w) EventHandler) list"

definition subscribe :: "nat \<Rightarrow> ('e, 'w) EventHandler \<Rightarrow> ('e, 'w) EventBus \<Rightarrow> ('e, 'w) EventBus" where
  "subscribe r h bus =
     (if r \<in> fst ` set (handlers bus) then bus
      else bus\<lparr>handlers := handlers bus @ [(r, h)]\<rparr>)"

definition unsubscribe :: "nat \<Rightarrow> ('e, 'w) EventBus \<Rightarrow> ('e, 'w) EventBus" where
  "unsubscribe r bus = bus\<lparr>handlers := filter (\<lambda>p. fst p \<noteq> r) (handlers bus)\<rparr>"

text \<open>\<^verbatim>\<open>try { handler(event); } catch { }\<close>: a throw inside the block ends the block normally.\<close>

fun try_catch_ignore :: "'w outcome \<Rightarrow> 'w outcome" where
  "try_catch_ignore (Returned w) = Returned w"
| "try_catch_ignore (Threw w) = Returned w"

text \<open>
  \<^verbatim>\<open>for (const handler of this.handlers) { try { handler(event); } catch { } }\<close>
  The loop body is a statement of the loop: were it to end by a throw, the loop and
  \<open>emit\<close> would end by that throw. The first component of the result is a ghost trace of
  the references of the handlers that were called.
\<close>

fun emit_loop :: "(nat \<times> ('e, 'w) EventHandler) list \<Rightarrow> 'e \<Rightarrow> 'w \<Rightarrow> nat list \<times> 'w outcome" where
  "emit_loop [] ev w = ([], Returned w)"
| "emit_loop ((r, h) # hs) ev w =
     (case try_catch_ignore (h ev w) of
        Returned w' \<Rightarrow> (case emit_loop hs ev w' of (called, res) \<Rightarrow> (r # called, res))
      | Threw w' \<Rightarrow> ([r], Threw w'))"

definition emit :: "('e, 'w) EventBus \<Rightarrow> 'e \<Rightarrow> 'w \<Rightarrow> nat list \<times> 'w outcome" where
  "emit bus ev w = emit_loop (handlers bus) ev w"

subsection \<open>The user-message queue and the SDK loop\<close>

text \<open>
  \<^verbatim>\<open>sdkLoop\<close> is an async function. Its control point is one of: at the top of the
  \<^verbatim>\<open>while (true)\<close> body; suspended on a promise nobody has resolved yet; resumable,
  its promise resolved with a content string and the continuation not yet run; inside the
  turn for a content string (\<^verbatim>\<open>client.send\<close> and the \<^verbatim>\<open>receive\<close> loop).
\<close>

datatype loop_pc = AtTop | Awaiting | Resumable string | InTurn string

text \<open>
  \<open>pendingSend\<close> is the \<^verbatim>\<open>resolve\<close> function of the promise the loop created last, or
  null. \<open>consumed\<close> is a ghost field: the content strings the loop has received from its
  \<^verbatim>\<open>await\<close>, in order.
\<close>

record sdk_state =
  messageQueue :: "string list"
  pendingSend :: bool
  pc :: loop_pc
  consumed :: "string list"

definition sdk_init :: sdk_state where
  "sdk_init = \<lparr>messageQueue = [], pendingSend = False, pc = AtTop, consumed = []\<rparr>"

text \<open>Calling \<^verbatim>\<open>resolve\<close> settles a pending promise; on a settled one it does nothing.\<close>

definition resolve :: "string \<Rightarrow> sdk_state \<Rightarrow> sdk_state" where
  "resolve content s = (case pc s of Awaiting \<Rightarrow> s\<lparr>pc := Resumable content\<rparr> | _ \<Rightarrow> s)"

definition sendToSdk :: "string \<Rightarrow> sdk_state \<Rightarrow> sdk_state" where
  "sendToSdk content s =
     (if pendingSend s then (resolve content s)\<lparr>pendingSend := False\<rparr>
      else s\<lparr>messageQueue := messageQueue s @ [content]\<rparr>)"

text \<open>
  One step of \<^verbatim>\<open>sdkLoop\<close>. At the top the promise executor runs at once: it shifts the
  queue's head into \<^verbatim>\<open>resolve\<close>, or stores \<^verbatim>\<open>resolve\<close> in \<open>pendingSend\<close>. A turn
  ends by the \<^verbatim>\<open>result\<close> message or in the \<^verbatim>\<open>catch\<close>; both lead back to the top.
\<close>

definition sdkLoop_step :: "sdk_state \<Rightarrow> sdk_state" where
  "sdkLoop_step s =
     (case pc s of
        AtTop \<Rightarrow>
          (case messageQueue s of
             c # rest \<Rightarrow> s\<lparr>messageQueue := rest, pc := Resumable c\<rparr>
           | [] \<Rightarrow> s\<lparr>pendingSend := True, pc := Awaiting\<rparr>)
      | Awaiting \<Rightarrow> s
      | Resumable c \<Rightarrow> s\<lparr>pc := InTurn c, consumed := consumed s @ [c]\<rparr>
      | InTurn c \<Rightarrow> s\<lparr>pc := AtTop\<rparr>)"

datatype sdk_event = SendToSdk string | LoopStep

fun sdk_step :: "sdk_state \<Rightarrow> sdk_event \<Rightarrow> sdk_state" where
  "sdk_step s (SendToSdk c) = sendToSdk c s"
| "sdk_step s LoopStep = sdkLoop_step s"

definition sdk_run :: "sdk_event list \<Rightarrow> sdk_state \<Rightarrow> sdk_state" where
  "sdk_run evs s = foldl sdk_step s evs"

fun submitted :: "sdk_event list \<Rightarrow> string list" where
  "submitted [] = []"
| "submitted (SendToSdk c # evs) = c # submitted evs"
| "submitted (LoopStep # evs) = submitted evs"

fun in_flight :: "loop_pc \<Rightarrow> string list" where
  "in_flight (Resumable c) = [c]"
| "in_flight _ = []"

text \<open>
  Two facts about the loop that hold in every state it reaches: \<open>pendingSend\<close> is set
  exactly while the loop is suspended, and the loop suspends only on an empty queue.
\<close>

definition sdk_inv :: "sdk_state \<Rightarrow> bool" where
  "sdk_inv s = (pendingSend s = (pc s = Awaiting) \<and> (pc s = Awaiting \<longrightarrow> messageQueue s = []))"

definition acct :: "sdk_state \<Rightarrow> string list" where
  "acct s = consumed s @ in_flight (pc s) @ messageQueue s"

definition steps_left :: "sdk_state \<Rightarrow> nat" where
  "steps_left s =
     (case pc s of
        AtTop \<Rightarrow> 3 * length (messageQueue s) + 1
      | Awaiting \<Rightarrow> 0
      | Resumable c \<Rightarrow> 3 * length (messageQueue s) + 3
      | InTurn c \<Rightarrow> 3 * length (messageQueue s) + 2)"


section \<open>The protocol types (types.ts)\<close>

text \<open>
  A JavaScript \<^verbatim>\<open>number\<close> is kept as a real: the code below stores and copies numbers and
  never computes with them. A value the code treats as opaque JSON is kept as its text.
\<close>

type_synonym number = real
type_synonym json = string
type_synonym ref = nat

datatype ContentBlock =
    TextBlock string
  | ToolUse string string json
  | ToolResult string
  | Thinking string

record SessionState =
  session_id :: string
  backend_type :: "string option"
  model :: string
  cwd :: string
  tools :: "string list"
  permissionMode :: string
  claude_code_version :: string
  mcp_servers :: "(string \<times> string) list"
  total_cost_usd :: number
  num_turns :: number
  context_used_percent :: number
  is_compacting :: bool

text \<open>\<^verbatim>\<open>Partial<SessionState>\<close>: every key is present with a value, or absent.\<close>

record SessionPatch =
  p_session_id :: "string option"
  p_backend_type :: "string option"
  p_model :: "string option"
  p_cwd :: "string option"
  p_tools :: "string list option"
  p_permissionMode :: "string option"
  p_claude_code_version :: "string option"
  p_mcp_servers :: "(string \<times> string) list option"
  p_total_cost_usd :: "number option"
  p_num_turns :: "number option"
  p_context_used_percent :: "number option"
  p_is_compacting :: "bool option"

record PermissionRequest =
  request_id :: string
  tool_name :: string
  input :: json
  description :: "string option"
  tool_use_id :: string
  agent_id :: "string option"
  timestamp :: number

record ResultData =
  r_subtype :: string
  r_is_error :: bool
  r_result :: "string option"
  r_errors :: "string list option"
  r_duration_ms :: number
  r_duration_api_ms :: number
  r_num_turns :: number
  r_total_cost_usd :: number
  r_session_id :: string

datatype Delta = TextDelta string | ThinkingDelta string | InputJsonDelta string

datatype StreamEvent =
    ContentBlockStart number ContentBlock
  | ContentBlockDelta number Delta
  | ContentBlockStop number
  | MessageStart string string string
  | MessageDelta string
  | MessageStop

record McpServerDetail =
  m_name :: string
  m_status :: string
  m_error :: "string option"
  m_config_type :: string
  m_tools :: "nat option"

datatype Status = StatusCompacting | StatusIdle | StatusRunning

text \<open>
  \<^verbatim>\<open>ServerMessage\<close>: every variant may carry \<^verbatim>\<open>seq?: number\<close>, kept on the envelope
  \<open>Msg\<close>. \<open>Other\<close> stands for a well-formed object whose \<^verbatim>\<open>type\<close> no \<^verbatim>\<open>case\<close> of
  \<open>handleMessage\<close> names (\<^verbatim>\<open>tool_use_summary\<close> among them).
\<close>

datatype Payload =
    SessionInit SessionState
  | SessionUpdate SessionPatch
  | Assistant "ContentBlock list"
  | StreamEventMsg StreamEvent
  | Result ResultData
  | PermissionRequestMsg PermissionRequest
  | PermissionCancelled string
  | ToolProgress string string number
  | StatusChange "Status option"
  | ErrorMsg string
  | CliDisconnected
  | CliConnected
  | UserMessage string "string option"
  | MessageHistory "ServerMessage list"
  | EventReplay "(ServerMessage \<times> number) list"
  | SessionNameUpdate string
  | McpStatus "McpServerDetail list"
  | Other string
and ServerMessage = Msg (seq: "number option") (payload: Payload)

datatype Behavior = Allow | Deny

text \<open>
  \<^verbatim>\<open>ClientMessage\<close>. \<^verbatim>\<open>client_msg_id\<close> comes from \<^verbatim>\<open>crypto.randomUUID()\<close>; it is the
  number of the call that made it.
\<close>

datatype ClientMessage =
    CUserMessage string nat
  | CPermissionResponse string Behavior nat
  | CSessionSubscribe number string
  | CInterrupt nat
  | CSetModel string nat
  | CSetPermissionMode string nat
  | CMcpGetStatus nat
  | CMcpToggle string bool nat
  | CMcpReconnect string nat

section \<open>The terminal client (src/tui.ts with companion-client.ts)\<close>

subsection \<open>Components and the application state\<close>

text \<open>
  The text of a component is kept as the template the source builds it from and the
  template's arguments; \<open>Lit\<close> is a string the source passes as it is. Styling (chalk)
  and number formatting belong to the rendering.
\<close>

datatype Notice =
    HeaderSession string
  | HeaderName string
  | ResultErrors "string list"
  | WebInput
  | CliDisconnectedNotice
  | CliConnectedNotice
  | ErrorNotice string
  | HelpText
  | McpFetching
  | McpNone
  | McpList "McpServerDetail list"
  | SwitchingModel string
  | SwitchingPermissionMode string
  | SwitchingMode string
  | NoSessionInfo
  | StatusInfo SessionState "string option"
  | McpToggling bool string
  | McpReconnecting string

datatype TextSrc =
    Lit string
  | WebLabel string
  | YouLabel string
  | Extracted "ContentBlock list"
  | NoticeText Notice

datatype LoaderMsg = ThinkingMsg | RunningTool string | RunningToolElapsed string number | CompactingMsg

datatype Picker = ModelPicker | ModePicker

datatype Component =
    StatusBar
  | Editor
  | Spacer nat
  | Text TextSrc
  | Markdown TextSrc
  | Loader LoaderMsg bool
  | PermissionBanner PermissionRequest
  | SelectList Picker

datatype ConnectionStatus = Connecting | Connected | Disconnected

datatype readyState = CONNECTING | OPEN | CLOSING | CLOSED

text \<open>
  The state \<open>main\<close> closes over. Components are objects: \<open>objs\<close> is the store, a
  reference is an index into it, and \<open>children\<close>, \<open>focus\<close>, \<open>streamingMd\<close>, \<open>loader\<close>
  and \<open>permissionBanner\<close> hold references. \<open>ws\<close> is the client's socket (its
  \<^verbatim>\<open>readyState\<close>) or null. \<open>sent\<close> lists the frames handed to \<^verbatim>\<open>ws.send\<close>;
  \<open>uuids\<close> counts the calls of \<^verbatim>\<open>crypto.randomUUID\<close>; \<open>mcpTimers\<close> counts the
  pending \<^verbatim>\<open>setTimeout(() => client.mcpGetStatus(), ...)\<close>; \<open>exited\<close> says
  \<^verbatim>\<open>process.exit\<close> was called.
\<close>

record app =
  objs :: "Component list"
  children :: "ref list"
  focus :: "ref option"
  editor :: ref
  header :: ref
  statusBar :: ref
  disableSubmit :: bool
  connectionStatus :: ConnectionStatus
  session :: "SessionState option"
  isRunning :: bool
  gitBranch :: "string option"
  streamingText :: string
  streamingMd :: "ref option"
  loader :: "ref option"
  permissionBanner :: "ref option"
  locallyTriggered :: bool
  lastMcpServers :: "McpServerDetail list"
  lastCtrlC :: int
  ws :: "readyState option"
  lastSeq :: number
  reconnectTimer :: bool
  disposed :: bool
  clientId :: string
  sent :: "ClientMessage list"
  uuids :: nat
  mcpTimers :: nat
  exited :: bool

subsection \<open>pi-tui: the container operations the source calls\<close>

text \<open>
  Modelled from the library's documented behaviour: \<^verbatim>\<open>new\<close> allocates an object,
  \<^verbatim>\<open>addChild\<close> pushes, \<^verbatim>\<open>removeChild\<close> splices the first occurrence out if there
  is one, \<^verbatim>\<open>setFocus\<close> records the focused component, \<^verbatim>\<open>requestRender\<close> changes
  nothing the source reads.
\<close>

definition new :: "Component \<Rightarrow> app \<Rightarrow> ref \<times> app" where
  "new c s = (length (objs s), s\<lparr>objs := objs s @ [c]\<rparr>)"

fun indexOf :: "'a \<Rightarrow> 'a list \<Rightarrow> nat option" where
  "indexOf x [] = None"
| "indexOf x (y # ys) = (if x = y then Some 0 else map_option Suc (indexOf x ys))"

definition addChild :: "ref \<Rightarrow> app \<Rightarrow> app" where
  "addChild c s = s\<lparr>children := children s @ [c]\<rparr>"

definition removeChild :: "ref \<Rightarrow> app \<Rightarrow> app" where
  "removeChild c s = s\<lparr>children := remove1 c (children s)\<rparr>"

definition setFocus :: "ref \<Rightarrow> app \<Rightarrow> app" where
  "setFocus c s = s\<lparr>focus := Some c\<rparr>"

definition setObj :: "ref \<Rightarrow> Component \<Rightarrow> app \<Rightarrow> app" where
  "setObj r c s = s\<lparr>objs := (objs s)[r := c]\<rparr>"

subsection \<open>The helpers of \<open>main\<close>\<close>

text \<open>\<^verbatim>\<open>tui.children.splice(idx, 0, component)\<close> when the editor is a child, else \<^verbatim>\<open>addChild\<close>.\<close>

definition insertBeforeEditor :: "ref \<Rightarrow> app \<Rightarrow> app" where
  "insertBeforeEditor c s =
     (case indexOf (editor s) (children s) of
        Some idx \<Rightarrow> s\<lparr>children := take idx (children s) @ [c] @ drop idx (children s)\<rparr>
      | None \<Rightarrow> addChild c s)"

definition loader_stop :: "ref \<Rightarrow> app \<Rightarrow> app" where
  "loader_stop l s =
     (if l < length (objs s) then
        (case objs s ! l of Loader m r \<Rightarrow> setObj l (Loader m False) s | _ \<Rightarrow> s)
      else s)"

definition loader_setMessage :: "ref \<Rightarrow> LoaderMsg \<Rightarrow> app \<Rightarrow> app" where
  "loader_setMessage l m s =
     (if l < length (objs s) then
        (case objs s ! l of Loader m0 r \<Rightarrow> setObj l (Loader m r) s | _ \<Rightarrow> s)
      else s)"

definition removeLoader :: "app \<Rightarrow> app" where
  "removeLoader s =
     (case loader s of
        Some l \<Rightarrow> (loader_stop l (removeChild l s))\<lparr>loader := None\<rparr>
      | None \<Rightarrow> s)"

definition finalizeStream :: "app \<Rightarrow> app" where
  "finalizeStream s = s\<lparr>streamingText := [], streamingMd := None\<rparr>"

definition ensureStreamingMd :: "app \<Rightarrow> ref \<times> app" where
  "ensureStreamingMd s =
     (case streamingMd s of
        Some md \<Rightarrow> (md, s)
      | None \<Rightarrow>
          (let s1 = removeLoader s;
               (md, s2) = new (Markdown (Lit [])) s1;
               s3 = s2\<lparr>streamingMd := Some md\<rparr>
           in (md, insertBeforeEditor md s3)))"

text \<open>\<^verbatim>\<open>new Loader(...); insertBeforeEditor(loader); loader.start()\<close>, as the source repeats it.\<close>

definition startLoader :: "LoaderMsg \<Rightarrow> app \<Rightarrow> app" where
  "startLoader m s =
     (let (l, s1) = new (Loader m True) s
      in insertBeforeEditor l (s1\<lparr>loader := Some l\<rparr>))"

definition insertNew :: "Component \<Rightarrow> app \<Rightarrow> app" where
  "insertNew c s = (let (r, s1) = new c s in insertBeforeEditor r s1)"

subsection \<open>CompanionClient\<close>

definition send :: "ClientMessage \<Rightarrow> app \<Rightarrow> app" where
  "send m s = (if ws s = Some OPEN then s\<lparr>sent := sent s @ [m]\<rparr> else s)"

definition randomUUID :: "app \<Rightarrow> nat \<times> app" where
  "randomUUID s = (uuids s, s\<lparr>uuids := Suc (uuids s)\<rparr>)"

definition sendUserMessage :: "string \<Rightarrow> app \<Rightarrow> app" where
  "sendUserMessage content s = (let (u, s1) = randomUUID s in send (CUserMessage content u) s1)"

definition sendPermissionResponse :: "string \<Rightarrow> Behavior \<Rightarrow> app \<Rightarrow> app" where
  "sendPermissionResponse requestId behavior s =
     (let (u, s1) = randomUUID s in send (CPermissionResponse requestId behavior u) s1)"

definition interrupt :: "app \<Rightarrow> app" where
  "interrupt s = (let (u, s1) = randomUUID s in send (CInterrupt u) s1)"

definition setModel :: "string \<Rightarrow> app \<Rightarrow> app" where
  "setModel m s = (let (u, s1) = randomUUID s in send (CSetModel m u) s1)"

definition setPermissionMode :: "string \<Rightarrow> app \<Rightarrow> app" where
  "setPermissionMode m s = (let (u, s1) = randomUUID s in send (CSetPermissionMode m u) s1)"

definition mcpGetStatus :: "app \<Rightarrow> app" where
  "mcpGetStatus s = (let (u, s1) = randomUUID s in send (CMcpGetStatus u) s1)"

definition mcpToggle :: "string \<Rightarrow> bool \<Rightarrow> app \<Rightarrow> app" where
  "mcpToggle serverName enabled s =
     (let (u, s1) = randomUUID s in send (CMcpToggle serverName enabled u) s1)"

definition mcpReconnect :: "string \<Rightarrow> app \<Rightarrow> app" where
  "mcpReconnect serverName s = (let (u, s1) = randomUUID s in send (CMcpReconnect serverName u) s1)"

text \<open>\<^verbatim>\<open>onStatusChange\<close> as \<open>main\<close> passes it: \<^verbatim>\<open>statusBar.connectionStatus = status\<close>.\<close>

definition onStatusChange :: "ConnectionStatus \<Rightarrow> app \<Rightarrow> app" where
  "onStatusChange st s = s\<lparr>connectionStatus := st\<rparr>"

definition connect :: "app \<Rightarrow> app" where
  "connect s =
     (if disposed s then s
      else (onStatusChange Connecting s)\<lparr>ws := Some CONNECTING\<rparr>)"

definition scheduleReconnect :: "app \<Rightarrow> app" where
  "scheduleReconnect s = (if disposed s then s else s\<lparr>reconnectTimer := True\<rparr>)"

definition dispose :: "app \<Rightarrow> app" where
  "dispose s = s\<lparr>disposed := True, reconnectTimer := False, ws := None\<rparr>"

text \<open>The socket's \<^verbatim>\<open>open\<close> and \<^verbatim>\<open>close\<close> handlers. The socket is open when \<^verbatim>\<open>open\<close> fires.\<close>

definition ws_on_open :: "app \<Rightarrow> app" where
  "ws_on_open s =
     (let s1 = onStatusChange Connected (s\<lparr>ws := Some OPEN\<rparr>)
      in send (CSessionSubscribe (lastSeq s1) (clientId s1)) s1)"

definition ws_on_close :: "app \<Rightarrow> app" where
  "ws_on_close s = scheduleReconnect (onStatusChange Disconnected (s\<lparr>ws := None\<rparr>))"

subsection \<open>\<open>handleMessage\<close>, case by case\<close>

text \<open>\<^verbatim>\<open>Object.assign(statusBar.session, msg.session)\<close>: each key the patch has overwrites.\<close>

definition assign :: "SessionState \<Rightarrow> SessionPatch \<Rightarrow> SessionState" where
  "assign t p =
     \<lparr>session_id = (case p_session_id p of Some v \<Rightarrow> v | None \<Rightarrow> session_id t),
      backend_type = (case p_backend_type p of Some v \<Rightarrow> Some v | None \<Rightarrow> backend_type t),
      model = (case p_model p of Some v \<Rightarrow> v | None \<Rightarrow> model t),
      cwd = (case p_cwd p of Some v \<Rightarrow> v | None \<Rightarrow> cwd t),
      tools = (case p_tools p of Some v \<Rightarrow> v | None \<Rightarrow> tools t),
      permissionMode = (case p_permissionMode p of Some v \<Rightarrow> v | None \<Rightarrow> permissionMode t),
      claude_code_version =
        (case p_claude_code_version p of Some v \<Rightarrow> v | None \<Rightarrow> claude_code_version t),
      mcp_servers = (case p_mcp_servers p of Some v \<Rightarrow> v | None \<Rightarrow> mcp_servers t),
      total_cost_usd = (case p_total_cost_usd p of Some v \<Rightarrow> v | None \<Rightarrow> total_cost_usd t),
      num_turns = (case p_num_turns p of Some v \<Rightarrow> v | None \<Rightarrow> num_turns t),
      context_used_percent =
        (case p_context_used_percent p of Some v \<Rightarrow> v | None \<Rightarrow> context_used_percent t),
      is_compacting = (case p_is_compacting p of Some v \<Rightarrow> v | None \<Rightarrow> is_compacting t)\<rparr>"

definition on_session_init :: "SessionState \<Rightarrow> app \<Rightarrow> app" where
  "on_session_init ss s = s\<lparr>session := Some ss\<rparr>"

definition on_session_update :: "SessionPatch \<Rightarrow> app \<Rightarrow> app" where
  "on_session_update p s =
     (case session s of
        Some cur \<Rightarrow> s\<lparr>session := Some (assign cur p)\<rparr>
      | None \<Rightarrow> s)"

definition on_user_message :: "string \<Rightarrow> string option \<Rightarrow> app \<Rightarrow> app" where
  "on_user_message content sender s =
     (if sender = Some (clientId s) then s
      else insertNew (Spacer 1) (insertNew (Markdown (WebLabel content)) s))"

text \<open>
  A string is kept as its UTF-8 bytes. \<open>js_spaces\<close> lists the encodings of the code points
  that \<^verbatim>\<open>String.prototype.trim\<close> strips and \<^verbatim>\<open>\s\<close> matches (ECMAScript's WhiteSpace
  and LineTerminator): tab, LF, VT, FF, CR, space, U+00A0, U+1680, U+2000 to U+200A,
  U+2028, U+2029, U+202F, U+205F, U+3000, U+FEFF. No encoding is a prefix of another, and
  none starts inside the encoding of another code point.
\<close>

definition js_spaces :: "string list" where
  "js_spaces =
     [[CHR 0x09], [CHR 0x0A], [CHR 0x0B], [CHR 0x0C], [CHR 0x0D], [CHR 0x20],
      [CHR 0xC2, CHR 0xA0],
      [CHR 0xE1, CHR 0x9A, CHR 0x80],
      [CHR 0xE2, CHR 0x80, CHR 0x80], [CHR 0xE2, CHR 0x80, CHR 0x81],
      [CHR 0xE2, CHR 0x80, CHR 0x82], [CHR 0xE2, CHR 0x80, CHR 0x83],
      [CHR 0xE2, CHR 0x80, CHR 0x84], [CHR 0xE2, CHR 0x80, CHR 0x85],
      [CHR 0xE2, CHR 0x80, CHR 0x86], [CHR 0xE2, CHR 0x80, CHR 0x87],
      [CHR 0xE2, CHR 0x80, CHR 0x88], [CHR 0xE2, CHR 0x80, CHR 0x89],
      [CHR 0xE2, CHR 0x80, CHR 0x8A],
      [CHR 0xE2, CHR 0x80, CHR 0xA8], [CHR 0xE2, CHR 0x80, CHR 0xA9],
      [CHR 0xE2, CHR 0x80, CHR 0xAF],
      [CHR 0xE2, CHR 0x81, CHR 0x9F],
      [CHR 0xE3, CHR 0x80, CHR 0x80],
      [CHR 0xEF, CHR 0xBB, CHR 0xBF]]"

text \<open>
  \<open>space_len sp t\<close>: the number of bytes of the white-space code point that \<open>t\<close> starts
  with, 0 when it starts with none. \<open>strip sp n t\<close> drops \<open>n\<close> bytes and then every
  white-space code point at the head. \<open>trim\<close> strips both ends; from the end, the
  encodings are read backwards.
\<close>

definition space_len :: "string list \<Rightarrow> string \<Rightarrow> nat" where
  "space_len sp t =
     (case find (\<lambda>w. take (length w) t = w) sp of Some w \<Rightarrow> length w | None \<Rightarrow> 0)"

fun strip :: "string list \<Rightarrow> nat \<Rightarrow> string \<Rightarrow> string" where
  "strip sp n [] = []"
| "strip sp (Suc n) (c # cs) = strip sp n cs"
| "strip sp 0 (c # cs) =
     (case space_len sp (c # cs) of 0 \<Rightarrow> c # cs | Suc k \<Rightarrow> strip sp k cs)"

definition trim :: "string \<Rightarrow> string" where
  "trim t = rev (strip (map rev js_spaces) 0 (rev (strip js_spaces 0 t)))"

text \<open>
  \<^verbatim>\<open>extractText(blocks).trim()\<close> is a non-empty string when a text block has a character
  that is not white space, or when there is a tool-use or thinking block (each adds a
  glyph).
\<close>

fun shows_text :: "ContentBlock \<Rightarrow> bool" where
  "shows_text (TextBlock t) = (trim t \<noteq> [])"
| "shows_text (ToolUse i n inp) = True"
| "shows_text (ToolResult i) = False"
| "shows_text (Thinking t) = True"

definition on_assistant :: "ContentBlock list \<Rightarrow> app \<Rightarrow> app" where
  "on_assistant blocks s =
     (let s1 = removeLoader (finalizeStream s)
      in if list_ex shows_text blocks
         then insertNew (Spacer 1) (insertNew (Markdown (Extracted blocks)) s1)
         else s1)"

text \<open>\<^verbatim>\<open>md.setText(text)\<close> on a Markdown, \<^verbatim>\<open>header.setText(text)\<close> on a Text.\<close>

definition setText :: "ref \<Rightarrow> string \<Rightarrow> app \<Rightarrow> app" where
  "setText md t s =
     (if md < length (objs s) then
        (case objs s ! md of Markdown t0 \<Rightarrow> setObj md (Markdown (Lit t)) s | _ \<Rightarrow> s)
      else s)"

definition header_setText :: "Notice \<Rightarrow> app \<Rightarrow> app" where
  "header_setText n s =
     (if header s < length (objs s) then
        (case objs s ! header s of Text t0 \<Rightarrow> setObj (header s) (Text (NoticeText n)) s | _ \<Rightarrow> s)
      else s)"

definition on_stream_event :: "StreamEvent \<Rightarrow> app \<Rightarrow> app" where
  "on_stream_event event s =
     (case event of
        ContentBlockDelta i d \<Rightarrow>
          (case d of
             TextDelta t \<Rightarrow>
               (let (md, s1) = ensureStreamingMd s;
                    s2 = s1\<lparr>streamingText := streamingText s1 @ t\<rparr>
                in setText md (streamingText s2) s2)
           | ThinkingDelta t \<Rightarrow> s
           | InputJsonDelta j \<Rightarrow> s)
      | ContentBlockStop i \<Rightarrow> s
      | MessageStop \<Rightarrow> finalizeStream s
      | MessageDelta r \<Rightarrow> finalizeStream s
      | ContentBlockStart i b \<Rightarrow> s
      | MessageStart i m r \<Rightarrow> s)"

definition dropBanner :: "app \<Rightarrow> app" where
  "dropBanner s =
     (case permissionBanner s of
        Some b \<Rightarrow> (removeChild b s)\<lparr>permissionBanner := None\<rparr>
      | None \<Rightarrow> s)"

definition on_result :: "ResultData \<Rightarrow> app \<Rightarrow> app" where
  "on_result d s =
     (let s1 = (removeLoader (finalizeStream s))
                 \<lparr>isRunning := False, disableSubmit := False, locallyTriggered := False\<rparr>;
          s2 = (case permissionBanner s1 of
                  Some b \<Rightarrow> setFocus (editor s1) (dropBanner s1)
                | None \<Rightarrow> s1);
          s3 = (case session s2 of
                  Some cur \<Rightarrow>
                    s2\<lparr>session := Some (cur\<lparr>total_cost_usd := r_total_cost_usd d,
                                              num_turns := r_num_turns d\<rparr>)\<rparr>
                | None \<Rightarrow> s2);
          s4 = (case r_errors d of
                  Some (e # es) \<Rightarrow>
                    if r_is_error d then insertNew (Text (NoticeText (ResultErrors (e # es)))) s3
                    else s3
                | _ \<Rightarrow> s3)
      in insertNew (Spacer 1) s4)"

text \<open>
  The callback a banner is built with:
  \<^verbatim>\<open>(behavior) => { client.sendPermissionResponse(msg.request.request_id, behavior); ... }\<close>
\<close>

definition onRespond :: "PermissionRequest \<Rightarrow> Behavior \<Rightarrow> app \<Rightarrow> app" where
  "onRespond req behavior s =
     (let s1 = sendPermissionResponse (request_id req) behavior s;
          s2 = dropBanner s1;
          s3 = startLoader (RunningTool (tool_name req)) s2
      in setFocus (editor s3) s3)"

definition on_permission_request :: "PermissionRequest \<Rightarrow> app \<Rightarrow> app" where
  "on_permission_request req s =
     (let (b, s1) = new (PermissionBanner req) (removeLoader s);
          s2 = insertBeforeEditor b (s1\<lparr>permissionBanner := Some b\<rparr>)
      in setFocus b s2)"

definition on_permission_cancelled :: "app \<Rightarrow> app" where
  "on_permission_cancelled s =
     (case permissionBanner s of
        Some b \<Rightarrow> setFocus (editor s) (dropBanner s)
      | None \<Rightarrow> s)"

definition on_tool_progress :: "string \<Rightarrow> number \<Rightarrow> app \<Rightarrow> app" where
  "on_tool_progress tool elapsed s =
     (case loader s of
        Some l \<Rightarrow> loader_setMessage l (RunningToolElapsed tool elapsed) s
      | None \<Rightarrow> s)"

definition on_status_change :: "Status option \<Rightarrow> app \<Rightarrow> app" where
  "on_status_change st s =
     (let nowRunning = (st = Some StatusRunning);
          s1 = s\<lparr>isRunning := nowRunning\<rparr>;
          s2 = (if nowRunning \<and> \<not> locallyTriggered s1
                then startLoader ThinkingMsg
                       (insertNew (Text (NoticeText WebInput)) (s1\<lparr>disableSubmit := True\<rparr>))
                else s1)
      in if st = Some StatusCompacting
         then (case loader s2 of Some l \<Rightarrow> loader_setMessage l CompactingMsg s2 | None \<Rightarrow> s2)
         else s2)"

definition renderMcpStatus :: "McpServerDetail list \<Rightarrow> app \<Rightarrow> app" where
  "renderMcpStatus servers s =
     (let s1 = s\<lparr>lastMcpServers := servers\<rparr>
      in if servers = []
         then insertNew (Spacer 1) (insertNew (Text (NoticeText McpNone)) s1)
         else insertNew (Spacer 1) (insertNew (Text (NoticeText (McpList servers))) s1))"

text \<open>
  \<open>handleMessage\<close>: the \<^verbatim>\<open>switch (msg.type)\<close>. \<^verbatim>\<open>message_history\<close> and
  \<^verbatim>\<open>event_replay\<close> call it on each message they hold, in order; the \<^verbatim>\<open>seq\<close> beside a
  replayed message is not read (\<^verbatim>\<open>for (const { msg: replayMsg } of msg.events)\<close>).
\<close>

fun handleMessage :: "ServerMessage \<Rightarrow> app \<Rightarrow> app"
  and handleHistory :: "ServerMessage list \<Rightarrow> app \<Rightarrow> app"
  and handleReplay :: "(ServerMessage \<times> number) list \<Rightarrow> app \<Rightarrow> app" where
  "handleMessage (Msg q (SessionInit ss)) s = on_session_init ss s"
| "handleMessage (Msg q (SessionUpdate p)) s = on_session_update p s"
| "handleMessage (Msg q (UserMessage content sender)) s = on_user_message content sender s"
| "handleMessage (Msg q (Assistant blocks)) s = on_assistant blocks s"
| "handleMessage (Msg q (StreamEventMsg event)) s = on_stream_event event s"
| "handleMessage (Msg q (Result d)) s = on_result d s"
| "handleMessage (Msg q (PermissionRequestMsg req)) s = on_permission_request req s"
| "handleMessage (Msg q (PermissionCancelled rid)) s = on_permission_cancelled s"
| "handleMessage (Msg q (ToolProgress tid tool elapsed)) s = on_tool_progress tool elapsed s"
| "handleMessage (Msg q (StatusChange st)) s = on_status_change st s"
| "handleMessage (Msg q CliDisconnected) s = insertNew (Text (NoticeText CliDisconnectedNotice)) s"
| "handleMessage (Msg q CliConnected) s = insertNew (Text (NoticeText CliConnectedNotice)) s"
| "handleMessage (Msg q (MessageHistory ms)) s = handleHistory ms s"
| "handleMessage (Msg q (EventReplay evs)) s = handleReplay evs s"
| "handleMessage (Msg q (SessionNameUpdate n)) s = header_setText (HeaderName n) s"
| "handleMessage (Msg q (McpStatus servers)) s = renderMcpStatus servers s"
| "handleMessage (Msg q (ErrorMsg m)) s = insertNew (Text (NoticeText (ErrorNotice m))) s"
| "handleMessage (Msg q (Other t)) s = s"
| "handleHistory [] s = s"
| "handleHistory (m # ms) s = handleHistory ms (handleMessage m s)"
| "handleReplay [] s = s"
| "handleReplay ((m, q) # evs) s = handleReplay evs (handleMessage m s)"

subsection \<open>Local commands and the editor's submit handler\<close>

text \<open>
  \<^verbatim>\<open>split(/\s+/)\<close>: the pieces between the runs of white space, empty ones at the ends
  included. \<open>toLowerCase\<close> lowers the ASCII letters; it is applied to a command name
  that is then compared with ASCII literals, and those have no \<^verbatim>\<open>k\<close>, the one ASCII
  letter that a character outside ASCII (the Kelvin sign) is lowered to, so the
  comparisons come out as JavaScript's do. \<^verbatim>\<open>join(" ")\<close>, and the decimal value of a
  string of digits, as \<^verbatim>\<open>parseInt\<close> reads it.
\<close>

function split_ws :: "string \<Rightarrow> string \<Rightarrow> string list" where
  "split_ws [] cur = [rev cur]"
| "split_ws (c # cs) cur =
     (case space_len js_spaces (c # cs) of
        0 \<Rightarrow> split_ws cs (c # cur)
      | Suc k \<Rightarrow> rev cur # split_ws (strip js_spaces k cs) [])"
  by pat_completeness auto
termination
proof (relation "measure (\<lambda>(t, cur). length t)")
  have le: "length (strip sp n t) \<le> length t" for sp n t
    by (induction sp n t rule: strip.induct) (auto split: nat.splits)
  show "wf (measure (\<lambda>(t, cur). length t))" by simp
  show "((cs, c # cur), c # cs, cur) \<in> measure (\<lambda>(t, cur). length t)" for cs c cur
    by simp
  show "((strip js_spaces k cs, []), c # cs, cur) \<in> measure (\<lambda>(t, cur). length t)"
    for c cs k cur
    using le[of js_spaces k cs] by simp
qed

definition toLowerCase :: "string \<Rightarrow> string" where
  "toLowerCase t =
     map (\<lambda>c. if (65::nat) \<le> of_char c \<and> of_char c \<le> (90::nat)
              then char_of (of_char c + (32::nat)) else c) t"

fun join_sp :: "string list \<Rightarrow> string" where
  "join_sp [] = []"
| "join_sp [w] = w"
| "join_sp (w # rest) = w @ '' '' @ join_sp rest"

definition is_digit :: "char \<Rightarrow> bool" where
  "is_digit c = ((48::nat) \<le> of_char c \<and> of_char c \<le> (57::nat))"

definition parseInt :: "string \<Rightarrow> nat" where
  "parseInt ds = foldl (\<lambda>n c. 10 * n + (of_char c - (48::nat))) 0 ds"

text \<open>\<^verbatim>\<open>trimmed.match(/^(\d+)([tr])$/i)\<close>: the digits and the lower-cased letter, if it matches.\<close>

definition mcpActionMatch :: "string \<Rightarrow> (string \<times> char) option" where
  "mcpActionMatch t =
     (case rev t of
        [] \<Rightarrow> None
      | l # rds \<Rightarrow>
          if l \<in> set ''trTR'' \<and> rds \<noteq> [] \<and> list_all is_digit rds
          then Some (rev rds, hd (toLowerCase [l]))
          else None)"

definition cleanup :: "app \<Rightarrow> app" where
  "cleanup s = (dispose s)\<lparr>exited := True\<rparr>"

definition is_loader :: "app \<Rightarrow> ref \<Rightarrow> bool" where
  "is_loader s c = (c < length (objs s) \<and> (case objs s ! c of Loader m r \<Rightarrow> True | _ \<Rightarrow> False))"

definition clearConversation :: "app \<Rightarrow> app" where
  "clearConversation s =
     (let toRemove = filter (\<lambda>c. c \<notin> {statusBar s, header s, editor s}) (children s);
          s1 = foldl (\<lambda>a c. removeChild c (if is_loader a c then loader_stop c a else a)) s toRemove
      in insertNew (Spacer 1) s1)"

definition showHelp :: "app \<Rightarrow> app" where
  "showHelp s = insertNew (Spacer 1) (insertNew (Text (NoticeText HelpText)) s)"

definition showMcp :: "app \<Rightarrow> app" where
  "showMcp s = insertNew (Text (NoticeText McpFetching)) (mcpGetStatus s)"

definition showModelPicker :: "string option \<Rightarrow> app \<Rightarrow> app" where
  "showModelPicker directArg s =
     (case directArg of
        Some m \<Rightarrow> insertNew (Spacer 1) (insertNew (Text (NoticeText (SwitchingModel m))) (setModel m s))
      | None \<Rightarrow>
          (let (l, s1) = new (SelectList ModelPicker) s
           in setFocus l (insertBeforeEditor l s1)))"

definition showModePicker :: "string option \<Rightarrow> app \<Rightarrow> app" where
  "showModePicker directArg s =
     (case directArg of
        Some m \<Rightarrow>
          insertNew (Spacer 1)
            (insertNew (Text (NoticeText (SwitchingPermissionMode m))) (setPermissionMode m s))
      | None \<Rightarrow>
          (let (l, s1) = new (SelectList ModePicker) s
           in setFocus l (insertBeforeEditor l s1)))"

text \<open>The pickers' \<^verbatim>\<open>onSelect\<close> and \<^verbatim>\<open>onCancel\<close>; \<open>l\<close> is the list they belong to.\<close>

definition picker_onSelect :: "ref \<Rightarrow> Picker \<Rightarrow> string \<Rightarrow> app \<Rightarrow> app" where
  "picker_onSelect l p v s =
     (let s1 = setFocus (editor s) (removeChild l s)
      in case p of
           ModelPicker \<Rightarrow>
             insertNew (Spacer 1) (insertNew (Text (NoticeText (SwitchingModel v))) (setModel v s1))
         | ModePicker \<Rightarrow>
             insertNew (Spacer 1)
               (insertNew (Text (NoticeText (SwitchingMode v))) (setPermissionMode v s1)))"

definition picker_onCancel :: "ref \<Rightarrow> app \<Rightarrow> app" where
  "picker_onCancel l s = setFocus (editor s) (removeChild l s)"

definition showStatus :: "app \<Rightarrow> app" where
  "showStatus s =
     (case session s of
        None \<Rightarrow> insertNew (Spacer 1) (insertNew (Text (NoticeText NoSessionInfo)) s)
      | Some ss \<Rightarrow>
          insertNew (Spacer 1) (insertNew (Text (NoticeText (StatusInfo ss (gitBranch s)))) s))"

text \<open>\<open>handleSlashCommand\<close> returns whether it handled the command, and the state it left.\<close>

definition handleSlashCommand :: "string \<Rightarrow> app \<Rightarrow> bool \<times> app" where
  "handleSlashCommand cmd s =
     (let parts = split_ws cmd [];
          name = toLowerCase (hd parts);
          arg = trim (join_sp (tl parts));
          argOrNull = (if arg = [] then None else Some arg)
      in if name = ''/quit'' \<or> name = ''/exit'' then (True, cleanup s)
         else if name = ''/clear'' then (True, clearConversation s)
         else if name = ''/help'' then (True, showHelp s)
         else if name = ''/mcp'' then (True, showMcp s)
         else if name = ''/model'' then (True, showModelPicker argOrNull s)
         else if name = ''/mode'' then (True, showModePicker argOrNull s)
         else if name = ''/status'' then (True, showStatus s)
         else (False, s))"

text \<open>The \<^verbatim>\<open>"1t"\<close>, \<^verbatim>\<open>"2r"\<close> actions: \<open>None\<close> when the submit handler goes on past them.\<close>

definition mcpAction :: "string \<Rightarrow> app \<Rightarrow> app option" where
  "mcpAction trimmed s =
     (case mcpActionMatch trimmed of
        None \<Rightarrow> None
      | Some (digits, action) \<Rightarrow>
          if lastMcpServers s = [] then None
          else if parseInt digits = 0 \<or> parseInt digits - 1 \<ge> length (lastMcpServers s) then None
          else
            (let server = lastMcpServers s ! (parseInt digits - 1)
             in if action = CHR ''t'' then
                  (let nowEnabled = (m_status server \<noteq> ''disabled'');
                       s1 = mcpToggle (m_name server) (\<not> nowEnabled) s;
                       s2 = insertNew (Text (NoticeText (McpToggling nowEnabled (m_name server)))) s1
                   in Some (s2\<lparr>mcpTimers := Suc (mcpTimers s2)\<rparr>))
                else
                  (let s1 = mcpReconnect (m_name server) s;
                       s2 = insertNew (Text (NoticeText (McpReconnecting (m_name server)))) s1
                   in Some (s2\<lparr>mcpTimers := Suc (mcpTimers s2)\<rparr>))))"

definition onSubmit :: "string \<Rightarrow> app \<Rightarrow> app" where
  "onSubmit text s =
     (let trimmed = trim text
      in if trimmed = [] then s
         else
           (let (handled, s1) =
                  (if hd trimmed = CHR ''/'' then handleSlashCommand trimmed s else (False, s))
            in if handled then s1
               else
                 (case mcpAction trimmed s1 of
                    Some s2 \<Rightarrow> s2
                  | None \<Rightarrow>
                      if isRunning s1 then s1
                      else
                        (let s2 = sendUserMessage trimmed (s1\<lparr>locallyTriggered := True\<rparr>);
                             s3 = insertNew (Markdown (YouLabel trimmed)) s2;
                             s4 = s3\<lparr>isRunning := True, disableSubmit := True\<rparr>
                         in startLoader ThinkingMsg s4))))"

subsection \<open>Keys\<close>

text \<open>
  \<^verbatim>\<open>matchesKey(data, key)\<close> is pi-tui's: it is a parameter \<open>mk\<close> of everything below.
  \<open>PermissionBanner.handleInput\<close> gives the behaviour it calls \<^verbatim>\<open>onRespond\<close> with, or
  \<open>None\<close> when it calls nothing.
\<close>

definition banner_handleInput :: "(string \<Rightarrow> string \<Rightarrow> bool) \<Rightarrow> string \<Rightarrow> Behavior option" where
  "banner_handleInput mk data =
     (if mk data ''y'' \<or> mk data ''enter'' then Some Allow
      else if mk data ''n'' \<or> mk data ''escape'' then Some Deny
      else if mk data ''a'' then Some Allow
      else None)"

text \<open>
  The listener \<open>main\<close> adds with \<^verbatim>\<open>tui.addInputListener\<close>; \<open>now\<close> is \<^verbatim>\<open>Date.now()\<close>. The
  boolean is \<^verbatim>\<open>{ consume: true }\<close>. \<open>cleanup\<close> ends in \<^verbatim>\<open>process.exit\<close>: nothing after
  it runs.
\<close>

definition inputListener :: "(string \<Rightarrow> string \<Rightarrow> bool) \<Rightarrow> string \<Rightarrow> int \<Rightarrow> app \<Rightarrow> bool \<times> app" where
  "inputListener mk data now s =
     (if mk data ''escape'' then
        (if isRunning s then (True, interrupt s) else (False, s))
      else if mk data ''ctrl+c'' then
        (if isRunning s then
           (if now - lastCtrlC s < 500 then (True, cleanup s)
            else (True, interrupt (s\<lparr>lastCtrlC := now\<rparr>)))
         else (True, cleanup s))
      else (False, s))"

text \<open>
  What the focused widget does with a key, when the widget is pi-tui's (the editor, a
  select list): it may call the callback the source gave it. Which, and with what
  argument, is the widget's business; the key event carries it.
\<close>

datatype Reaction = NoCallback | Submit string | Select string | Cancel

text \<open>
  pi-tui's \<^verbatim>\<open>TUI.handleInput\<close>: the input listeners first; unless one consumed the key,
  the focused component's \<^verbatim>\<open>handleInput\<close>.
\<close>

definition focused_handleInput ::
    "(string \<Rightarrow> string \<Rightarrow> bool) \<Rightarrow> string \<Rightarrow> Reaction \<Rightarrow> app \<Rightarrow> app" where
  "focused_handleInput mk data reaction s =
     (case focus s of
        None \<Rightarrow> s
      | Some f \<Rightarrow>
          if f < length (objs s) then
            (case objs s ! f of
               PermissionBanner req \<Rightarrow>
                 (case banner_handleInput mk data of
                    Some behavior \<Rightarrow> onRespond req behavior s
                  | None \<Rightarrow> s)
             | Editor \<Rightarrow> (case reaction of Submit t \<Rightarrow> onSubmit t s | _ \<Rightarrow> s)
             | SelectList p \<Rightarrow>
                 (case reaction of
                    Select v \<Rightarrow> picker_onSelect f p v s
                  | Cancel \<Rightarrow> picker_onCancel f s
                  | _ \<Rightarrow> s)
             | _ \<Rightarrow> s)
          else s)"

definition tui_handleInput ::
    "(string \<Rightarrow> string \<Rightarrow> bool) \<Rightarrow> string \<Rightarrow> int \<Rightarrow> Reaction \<Rightarrow> app \<Rightarrow> app" where
  "tui_handleInput mk data now reaction s =
     (let (consumed, s1) = inputListener mk data now s
      in if consumed \<or> exited s1 then s1 else focused_handleInput mk data reaction s1)"

subsection \<open>The socket's message handler and the event loop\<close>

text \<open>
  \<^verbatim>\<open>JSON.parse\<close> is a parameter: \<open>None\<close> when it throws; \<open>NotAnObject\<close> for a JSON
  value on which \<^verbatim>\<open>"seq" in msg\<close> throws (a number, a string, a boolean, null);
  \<open>Message\<close> for an object, read as the \<^verbatim>\<open>ServerMessage\<close> it is cast to.
  \<^verbatim>\<open>try { ... } catch { }\<close> around the whole body: every throw ends the handler normally.
\<close>

datatype Parsed = NotAnObject | Message ServerMessage

definition ws_on_message :: "(string \<Rightarrow> Parsed option) \<Rightarrow> string \<Rightarrow> app \<Rightarrow> app" where
  "ws_on_message parse raw s =
     (case parse raw of
        None \<Rightarrow> s
      | Some NotAnObject \<Rightarrow> s
      | Some (Message msg) \<Rightarrow>
          (let s1 = (case seq msg of Some q \<Rightarrow> s\<lparr>lastSeq := q\<rparr> | None \<Rightarrow> s)
           in handleMessage msg s1))"

text \<open>
  What can happen to the running client: a key; the socket opening, delivering a frame,
  closing; the reconnect timer and a status-refresh timer firing. After
  \<^verbatim>\<open>process.exit\<close> nothing happens. A socket event needs the socket in the state that
  produces it.
\<close>

datatype Event =
    Key string int Reaction
  | WsOpen
  | WsMessage string
  | WsClose
  | ReconnectTimer
  | McpTimer

definition app_step ::
    "(string \<Rightarrow> string \<Rightarrow> bool) \<Rightarrow> (string \<Rightarrow> Parsed option) \<Rightarrow> app \<Rightarrow> Event \<Rightarrow> app" where
  "app_step mk parse s e =
     (if exited s then s
      else
        (case e of
           Key data now reaction \<Rightarrow> tui_handleInput mk data now reaction s
         | WsOpen \<Rightarrow> if ws s = Some CONNECTING then ws_on_open s else s
         | WsMessage raw \<Rightarrow> if ws s = Some OPEN then ws_on_message parse raw s else s
         | WsClose \<Rightarrow> if ws s \<noteq> None then ws_on_close s else s
         | ReconnectTimer \<Rightarrow>
             if reconnectTimer s then connect (s\<lparr>reconnectTimer := False\<rparr>) else s
         | McpTimer \<Rightarrow>
             if 0 < mcpTimers s then mcpGetStatus (s\<lparr>mcpTimers := mcpTimers s - 1\<rparr>) else s))"

definition app_run ::
    "(string \<Rightarrow> string \<Rightarrow> bool) \<Rightarrow> (string \<Rightarrow> Parsed option) \<Rightarrow> Event list \<Rightarrow> app \<Rightarrow> app" where
  "app_run mk parse evs s = foldl (app_step mk parse) s evs"

subsection \<open>The state \<open>main\<close> starts from\<close>

text \<open>
  \<^verbatim>\<open>tui.addChild(statusBar); tui.addChild(header); tui.addChild(new Spacer(1));
  tui.addChild(editor); tui.setFocus(editor)\<close>, the variables as \<open>main\<close> initialises them,
  a client that has not connected yet.
\<close>

definition app0 :: "string \<Rightarrow> string \<Rightarrow> app" where
  "app0 sessionId cid =
     \<lparr>objs = [StatusBar, Text (NoticeText (HeaderSession sessionId)), Spacer 1, Editor],
      children = [0, 1, 2, 3],
      focus = Some 3,
      editor = 3,
      header = 1,
      statusBar = 0,
      disableSubmit = False,
      connectionStatus = Disconnected,
      session = None,
      isRunning = False,
      gitBranch = None,
      streamingText = [],
      streamingMd = None,
      loader = None,
      permissionBanner = None,
      locallyTriggered = False,
      lastMcpServers = [],
      lastCtrlC = 0,
      ws = None,
      lastSeq = 0,
      reconnectTimer = False,
      disposed = False,
      clientId = cid,
      sent = [],
      uuids = 0,
      mcpTimers = 0,
      exited = False\<rparr>"

text \<open>
  For evaluating examples: the bytes a terminal without the Kitty protocol sends for the
  keys the source names, and a \<^verbatim>\<open>JSON.parse\<close> cut down to three frames.
\<close>

definition rawKey :: "string \<Rightarrow> string \<Rightarrow> bool" where
  "rawKey data key =
     (data = (if key = ''enter'' then [CHR 0x0D]
              else if key = ''escape'' then [CHR 0x1B]
              else if key = ''ctrl+c'' then [CHR 0x03]
              else key))"

definition demo_parse :: "string \<Rightarrow> Parsed option" where
  "demo_parse raw =
     (if raw = ''connected@7'' then Some (Message (Msg (Some 7) CliConnected))
      else if raw = ''replay[connected@5]''
        then Some (Message (Msg None (EventReplay [(Msg (Some 5) CliConnected, 5)])))
      else if raw = ''null'' then Some NotAnObject
      else None)"

subsection \<open>Message sequences\<close>

text \<open>
  Messages handled one after the other, and the stream of one message with a single text
  block: a block-start, the text deltas, a block-stop, a message-stop.
\<close>

definition deliver :: "ServerMessage list \<Rightarrow> app \<Rightarrow> app" where
  "deliver ms s = foldl (\<lambda>a m. handleMessage m a) s ms"

definition text_delta :: "number \<Rightarrow> string \<Rightarrow> ServerMessage" where
  "text_delta i d = Msg None (StreamEventMsg (ContentBlockDelta i (TextDelta d)))"

definition streamed :: "number \<Rightarrow> ContentBlock \<Rightarrow> string list \<Rightarrow> ServerMessage list" where
  "streamed i b ds =
     [Msg None (StreamEventMsg (ContentBlockStart i b))]
     @ map (text_delta i) ds
     @ [Msg None (StreamEventMsg (ContentBlockStop i)), Msg None (StreamEventMsg MessageStop)]"

subsection \<open>Values for the examples\<close>

definition demo_session :: SessionState where
  "demo_session =
     \<lparr>session_id = ''S1'', backend_type = None, model = ''m1'', cwd = ''/w'', tools = [''Bash''],
      permissionMode = ''default'', claude_code_version = ''2.0'', mcp_servers = [],
      total_cost_usd = 0, num_turns = 0, context_used_percent = 0, is_compacting = False\<rparr>"

definition demo_patch :: SessionPatch where
  "demo_patch =
     \<lparr>p_session_id = None, p_backend_type = None, p_model = Some ''m2'', p_cwd = None,
      p_tools = None, p_permissionMode = None, p_claude_code_version = None,
      p_mcp_servers = None, p_total_cost_usd = None, p_num_turns = Some 3,
      p_context_used_percent = None, p_is_compacting = None\<rparr>"

definition demo_request :: PermissionRequest where
  "demo_request =
     \<lparr>request_id = ''req-1'', tool_name = ''Bash'', input = ''{}'', description = None,
      tool_use_id = ''tu-1'', agent_id = None, timestamp = 0\<rparr>"

section \<open>The standalone NDJSON server\<close>

text \<open>
  \<^verbatim>\<open>raw.split("\n")\<close>: the pieces between the separators, empty ones included.
\<close>

definition split_on :: "char \<Rightarrow> string \<Rightarrow> string list" where
  "split_on c t = foldr (\<lambda>x acc. if x = c then [] # acc else (x # hd acc) # tl acc) t [[]]"

text \<open>
  \<open>handleCliMessage\<close>: \<^verbatim>\<open>for (const line of raw.split("\n"))\<close>; a blank line is
  skipped; \<^verbatim>\<open>try { msg = JSON.parse(trimmed); } catch { continue; }\<close>; then the rest of
  the loop body (\<^verbatim>\<open>sendToBrowser\<close> and the \<^verbatim>\<open>switch\<close>), which is outside the
  \<^verbatim>\<open>try\<close>: it is the parameter \<open>body\<close>, and a throw in it ends the loop and the
  handler. \<open>parse\<close> is \<^verbatim>\<open>JSON.parse\<close>, \<open>None\<close> when it throws.
\<close>

fun handleCliLines ::
    "(string \<Rightarrow> 'm option) \<Rightarrow> ('m \<Rightarrow> 'st \<Rightarrow> 'st outcome) \<Rightarrow> string list \<Rightarrow> 'st \<Rightarrow> 'st outcome" where
  "handleCliLines parse body [] st = Returned st"
| "handleCliLines parse body (line # rest) st =
     (let trimmed = trim line
      in if trimmed = [] then handleCliLines parse body rest st
         else (case parse trimmed of
                 None \<Rightarrow> handleCliLines parse body rest st
               | Some msg \<Rightarrow>
                   (case body msg st of
                      Returned st' \<Rightarrow> handleCliLines parse body rest st'
                    | Threw st' \<Rightarrow> Threw st')))"

definition handleCliMessage ::
    "(string \<Rightarrow> 'm option) \<Rightarrow> ('m \<Rightarrow> 'st \<Rightarrow> 'st outcome) \<Rightarrow> string \<Rightarrow> 'st \<Rightarrow> 'st outcome" where
  "handleCliMessage parse body raw st = handleCliLines parse body (split_on (CHR 0x0A) raw) st"

text \<open>For evaluating examples: two lines that parse, and a body that records what it is given.\<close>

definition demo_line_parse :: "string \<Rightarrow> nat option" where
  "demo_line_parse l = (if l = ''1'' then Some 1 else if l = ''2'' then Some 2 else None)"

definition demo_body :: "nat \<Rightarrow> nat list \<Rightarrow> nat list outcome" where
  "demo_body m st = Returned (st @ [m])"

section \<open>Notions for the verification\<close>

subsection \<open>The client's part of the state\<close>

text \<open>The part of the state that belongs to \<open>CompanionClient\<close> and the process.\<close>

definition client_part ::
    "app \<Rightarrow> number \<times> string \<times> readyState option \<times> bool \<times> bool
           \<times> ClientMessage list \<times> nat \<times> bool" where
  "client_part s =
     (lastSeq s, clientId s, ws s, disposed s, reconnectTimer s, sent s, uuids s, exited s)"

subsection \<open>Prompts, responses and the focus\<close>

text \<open>
  What matters of a component for who may answer a prompt: whether it is a permission
  banner (and for which request), the editor, or anything else.
\<close>

datatype Kind = KBanner PermissionRequest | KEditor | KOther

fun kind_of :: "Component \<Rightarrow> Kind" where
  "kind_of (PermissionBanner req) = KBanner req"
| "kind_of Editor = KEditor"
| "kind_of c = KOther"

definition kinds :: "app \<Rightarrow> Kind list" where
  "kinds s = map kind_of (objs s)"

text \<open>
  \<open>responses r s\<close> counts the permission responses for request \<open>r\<close> among the frames
  sent; \<open>prompt_focused r s\<close> is 1 when the focused component is a banner for \<open>r\<close>,
  else 0.
\<close>

definition is_response :: "string \<Rightarrow> ClientMessage \<Rightarrow> bool" where
  "is_response r m = (case m of CPermissionResponse rid b u \<Rightarrow> rid = r | _ \<Rightarrow> False)"

definition responses :: "string \<Rightarrow> app \<Rightarrow> nat" where
  "responses r s = length (filter (is_response r) (sent s))"

definition prompt_focused :: "string \<Rightarrow> app \<Rightarrow> nat" where
  "prompt_focused r s =
     (case focus s of
        None \<Rightarrow> 0
      | Some f \<Rightarrow>
          if f < length (objs s) then
            (case objs s ! f of
               PermissionBanner req \<Rightarrow> if request_id req = r then 1 else 0
             | _ \<Rightarrow> 0)
          else 0)"

text \<open>
  A well-formed state: the editor reference points at the editor, and the focus, if any,
  at an existing component.
\<close>

definition well_formed :: "app \<Rightarrow> bool" where
  "well_formed s = (editor s < length (objs s) \<and> objs s ! editor s = Editor
           \<and> (case focus s of None \<Rightarrow> True | Some f \<Rightarrow> f < length (objs s)))"

text \<open>
  \<open>calm r k s s'\<close>: going from \<open>s\<close> to \<open>s'\<close> keeps the state well-formed, and the
  responses for \<open>r\<close> plus the focused prompt for \<open>r\<close> grow by at most \<open>k\<close>.
\<close>

definition calm :: "string \<Rightarrow> nat \<Rightarrow> app \<Rightarrow> app \<Rightarrow> bool" where
  "calm r k s s' =
     (well_formed s \<longrightarrow> well_formed s' \<and> responses r s' + prompt_focused r s' \<le> responses r s + prompt_focused r s + k)"


text \<open>
  How many prompts for request \<open>r\<close> a message makes \<open>handleMessage\<close> show, an event, a
  list of events.
\<close>

fun shown :: "string \<Rightarrow> ServerMessage \<Rightarrow> nat"
  and shown_history :: "string \<Rightarrow> ServerMessage list \<Rightarrow> nat"
  and shown_replay :: "string \<Rightarrow> (ServerMessage \<times> number) list \<Rightarrow> nat" where
  "shown r (Msg q (PermissionRequestMsg req)) = (if request_id req = r then 1 else 0)"
| "shown r (Msg q (MessageHistory ms)) = shown_history r ms"
| "shown r (Msg q (EventReplay evs)) = shown_replay r evs"
| "shown r (Msg q p) = 0"
| "shown_history r [] = 0"
| "shown_history r (m # ms) = shown r m + shown_history r ms"
| "shown_replay r [] = 0"
| "shown_replay r ((m, q) # evs) = shown r m + shown_replay r evs"

fun shown_event :: "(string \<Rightarrow> Parsed option) \<Rightarrow> string \<Rightarrow> Event \<Rightarrow> nat" where
  "shown_event parse r (WsMessage raw) =
     (case parse raw of Some (Message m) \<Rightarrow> shown r m | _ \<Rightarrow> 0)"
| "shown_event parse r e = 0"

definition shown_in :: "(string \<Rightarrow> Parsed option) \<Rightarrow> string \<Rightarrow> Event list \<Rightarrow> nat" where
  "shown_in parse r evs = sum_list (map (shown_event parse r) evs)"

definition same_view :: "app \<Rightarrow> app \<Rightarrow> bool" where
  "same_view x' x = (editor x' = editor x \<and> kinds x' = kinds x \<and> sent x' = sent x \<and> focus x' = focus x)"

named_theorems calm_intros

definition key_events :: "(string \<times> int \<times> Reaction) list \<Rightarrow> Event list" where
  "key_events ks = map (\<lambda>(d, t, rc). Key d t rc) ks"

text \<open>The state after a prompt for \<open>req\<close> is shown in \<open>s0\<close> and a key is pressed.\<close>

definition prompt_then_key ::
    "(string \<Rightarrow> string \<Rightarrow> bool) \<Rightarrow> (string \<Rightarrow> Parsed option) \<Rightarrow> PermissionRequest
     \<Rightarrow> string \<Rightarrow> int \<Rightarrow> Reaction \<Rightarrow> app \<Rightarrow> app" where
  "prompt_then_key mk parse req data now reaction s0 =
     app_step mk parse (handleMessage (Msg None (PermissionRequestMsg req)) s0)
       (Key data now reaction)"

text \<open>For the examples: the client connected, its socket open.\<close>

definition demo_open :: app where
  "demo_open = ws_on_open (connect (app0 ''S1'' ''tui-1''))"

text \<open>And after the user has submitted a message: a turn is running.\<close>

definition demo_running :: app where
  "demo_running = app_run rawKey demo_parse [WsOpen, Key [CHR 0x0D] 0 (Submit ''hi'')]
                    (connect (app0 ''S1'' ''tui-1''))"

subsection \<open>Interrupt frames\<close>

text \<open>
  \<open>interrupts s\<close> counts the interrupt frames among the frames sent.
  \<open>interrupt_presses mk evs\<close> counts the events of \<open>evs\<close> that are a press of Escape or
  of Ctrl+C, the two keys the input listener of \<open>main\<close> looks at.
\<close>

fun is_interrupt :: "ClientMessage \<Rightarrow> bool" where
  "is_interrupt (CInterrupt u) = True"
| "is_interrupt m = False"

definition interrupts :: "app \<Rightarrow> nat" where
  "interrupts s = length (filter is_interrupt (sent s))"

fun interrupt_press :: "(string \<Rightarrow> string \<Rightarrow> bool) \<Rightarrow> Event \<Rightarrow> nat" where
  "interrupt_press mk (Key data now reaction) =
     (if mk data ''escape'' \<or> mk data ''ctrl+c'' then 1 else 0)"
| "interrupt_press mk e = 0"

definition interrupt_presses :: "(string \<Rightarrow> string \<Rightarrow> bool) \<Rightarrow> Event list \<Rightarrow> nat" where
  "interrupt_presses mk evs = sum_list (map (interrupt_press mk) evs)"

section \<open>Verification: the SDK bridge\<close>

subsection \<open>EventBus.emit\<close>

text \<open>
  C8. When an event is fanned out, a handler that throws neither stops the handlers after
  it from receiving the event nor makes \<open>emit\<close> throw into its caller (the loop reading
  the upstream connection): for every list of handlers, every event and every world,
  \<open>emit\<close> calls every subscribed handler, in subscription order, each on the world its
  predecessors left, and returns normally.
\<close>

theorem emit_isolates_handlers:
  "emit bus ev w =
     (map fst (handlers bus),
      Returned (foldl (\<lambda>w p. after (snd p ev w)) w (handlers bus)))"
proof -
  have "emit_loop hs ev w = (map fst hs, Returned (foldl (\<lambda>w p. after (snd p ev w)) w hs))"
    for hs
  proof (induction hs arbitrary: w)
    case Nil
    show ?case by simp
  next
    case (Cons p hs)
    obtain r h where p: "p = (r, h)" by (cases p)
    show ?case
      by (cases "h ev w") (simp_all add: p Cons.IH)
  qed
  then show ?thesis by (simp add: emit_def)
qed

subsection \<open>The user-message queue\<close>

lemma sdk_inv_step: "sdk_inv s \<Longrightarrow> sdk_inv (sdk_step s e)"
  by (cases e; cases "pc s"; cases "messageQueue s")
     (auto simp: sdk_inv_def sendToSdk_def resolve_def sdkLoop_step_def)

lemma acct_step: "sdk_inv s \<Longrightarrow> acct (sdk_step s e) = acct s @ submitted [e]"
  by (cases e; cases "pc s"; cases "messageQueue s")
     (auto simp: sdk_inv_def acct_def sendToSdk_def resolve_def sdkLoop_step_def)

lemma submitted_append: "submitted (xs @ ys) = submitted xs @ submitted ys"
  by (induction xs rule: submitted.induct) auto

lemma sdk_run_append: "sdk_run (xs @ ys) s = sdk_run ys (sdk_run xs s)"
  by (simp add: sdk_run_def)

lemma sdk_run_inv_acct:
  "sdk_inv s \<Longrightarrow> sdk_inv (sdk_run evs s) \<and> acct (sdk_run evs s) = acct s @ submitted evs"
proof (induction evs rule: rev_induct)
  case Nil
  then show ?case by (simp add: sdk_run_def)
next
  case (snoc e evs)
  then show ?case
    by (simp add: sdk_run_def sdk_inv_step acct_step submitted_append)
qed

lemma steps_left_step:
  "pc s \<noteq> Awaiting \<Longrightarrow> Suc (steps_left (sdkLoop_step s)) = steps_left s"
  by (cases "pc s"; cases "messageQueue s") (auto simp: steps_left_def sdkLoop_step_def)

lemma steps_left_le: "steps_left s \<le> 3 * length (messageQueue s) + 3"
  by (cases "pc s") (auto simp: steps_left_def)

lemma drain_awaiting:
  "sdk_inv s \<Longrightarrow> steps_left s \<le> n \<Longrightarrow>
   pc (sdk_run (replicate n LoopStep) s) = Awaiting
   \<and> sdk_inv (sdk_run (replicate n LoopStep) s)
   \<and> acct (sdk_run (replicate n LoopStep) s) = acct s"
proof (induction n arbitrary: s)
  case 0
  then show ?case by (cases "pc s") (auto simp: steps_left_def sdk_run_def)
next
  case (Suc n)
  have inv': "sdk_inv (sdkLoop_step s)"
    using sdk_inv_step[OF Suc.prems(1), of LoopStep] by simp
  have acct': "acct (sdkLoop_step s) = acct s"
    using acct_step[OF Suc.prems(1), of LoopStep] by simp
  have le: "steps_left (sdkLoop_step s) \<le> n"
  proof (cases "pc s = Awaiting")
    case True
    then show ?thesis by (simp add: sdkLoop_step_def steps_left_def)
  next
    case False
    from steps_left_step[OF False] Suc.prems(2) show ?thesis by simp
  qed
  have "sdk_run (replicate (Suc n) LoopStep) s = sdk_run (replicate n LoopStep) (sdkLoop_step s)"
    by (simp add: sdk_run_def)
  with Suc.IH[OF inv' le] acct' show ?case by simp
qed

text \<open>
  C10. Every content string passed to \<open>sendToSdk\<close> is consumed by the SDK loop exactly
  once and in submission order. After any interleaving of \<open>sendToSdk\<close> calls and loop
  steps, the strings consumed, then the one a resolved wait holds, then the queue, are
  exactly the strings submitted, in order. A call made while the loop is awaiting input
  resolves that wait and leaves the queue alone; any other call appends to the queue. Once
  the loop has run long enough (three steps for each string and three more) it has
  consumed exactly the submitted strings and the queue is empty.
\<close>

theorem sdk_queue_fifo_exactly_once:
  "consumed (sdk_run evs sdk_init) @ in_flight (pc (sdk_run evs sdk_init))
      @ messageQueue (sdk_run evs sdk_init) = submitted evs
   \<and> sendToSdk c (sdk_run evs sdk_init) =
       (if pc (sdk_run evs sdk_init) = Awaiting
        then (sdk_run evs sdk_init)\<lparr>pc := Resumable c, pendingSend := False\<rparr>
        else (sdk_run evs sdk_init)\<lparr>messageQueue := messageQueue (sdk_run evs sdk_init) @ [c]\<rparr>)
   \<and> consumed (sdk_run (evs @ replicate (3 * length (submitted evs) + 3) LoopStep) sdk_init)
       = submitted evs
   \<and> messageQueue (sdk_run (evs @ replicate (3 * length (submitted evs) + 3) LoopStep) sdk_init)
       = []"
proof -
  let ?s = "sdk_run evs sdk_init"
  let ?n = "3 * length (submitted evs) + 3"
  have init: "sdk_inv sdk_init" by (simp add: sdk_inv_def sdk_init_def)
  have ia: "sdk_inv ?s" "acct ?s = submitted evs"
    using sdk_run_inv_acct[OF init, of evs] by (simp_all add: acct_def sdk_init_def)
  have c1: "consumed ?s @ in_flight (pc ?s) @ messageQueue ?s = submitted evs"
    using ia(2) by (simp add: acct_def)
  have c2: "sendToSdk c ?s =
       (if pc ?s = Awaiting then ?s\<lparr>pc := Resumable c, pendingSend := False\<rparr>
        else ?s\<lparr>messageQueue := messageQueue ?s @ [c]\<rparr>)"
    using ia(1) by (auto simp: sdk_inv_def sendToSdk_def resolve_def)
  have "length (messageQueue ?s) \<le> length (acct ?s)" by (simp add: acct_def)
  then have "steps_left ?s \<le> ?n"
    using steps_left_le[of ?s] ia(2) by simp
  from drain_awaiting[OF ia(1) this]
  have d: "pc (sdk_run (replicate ?n LoopStep) ?s) = Awaiting"
    "sdk_inv (sdk_run (replicate ?n LoopStep) ?s)"
    "acct (sdk_run (replicate ?n LoopStep) ?s) = submitted evs"
    using ia(2) by simp_all
  from d(1,2) have q: "messageQueue (sdk_run (replicate ?n LoopStep) ?s) = []"
    by (simp add: sdk_inv_def)
  from d(1,3) q have c3: "consumed (sdk_run (replicate ?n LoopStep) ?s) = submitted evs"
    by (simp add: acct_def)
  show ?thesis using c1 c2 c3 q by (simp add: sdk_run_append)
qed

section \<open>Verification: the terminal client\<close>

subsection \<open>Reassembling a streamed message\<close>

lemma deliver_append: "deliver (xs @ ys) s = deliver ys (deliver xs s)"
  by (simp add: deliver_def)

lemma deliver_Cons: "deliver (m # ms) s = deliver ms (handleMessage m s)"
  by (simp add: deliver_def)

lemma deliver_Nil: "deliver [] s = s"
  by (simp add: deliver_def)

lemma removeLoader_stream:
  "streamingText (removeLoader s) = streamingText s"
  "streamingMd (removeLoader s) = streamingMd s"
  by (auto simp: removeLoader_def loader_stop_def removeChild_def setObj_def
           split: option.splits Component.splits)

lemma insertNew_objs: "objs (insertNew c a) = objs a @ [c]"
  by (simp add: insertNew_def new_def insertBeforeEditor_def addChild_def split: option.splits)

lemma insertNew_retext:
  "(insertNew (Markdown (Lit d)) a)
      \<lparr>objs := (objs a @ [Markdown (Lit d)])[length (objs a) := Markdown (Lit t)]\<rparr>
    = insertNew (Markdown (Lit t)) a"
  by (simp add: insertNew_def new_def insertBeforeEditor_def addChild_def split: option.splits)

text \<open>The first text delta of a message creates the streaming component.\<close>

lemma delta_first:
  assumes "streamingText s = []" "streamingMd s = None"
  shows "handleMessage (text_delta i d) s
     = (insertNew (Markdown (Lit d)) (removeLoader s))
         \<lparr>streamingText := d, streamingMd := Some (length (objs (removeLoader s)))\<rparr>"
proof -
  have 1: "streamingText (removeLoader s) = []" "streamingMd (removeLoader s) = None"
    using assms by (simp_all add: removeLoader_stream)
  show ?thesis
    using assms 1
    by (simp add: text_delta_def on_stream_event_def ensureStreamingMd_def new_def insertNew_def
          insertBeforeEditor_def addChild_def setText_def setObj_def Let_def
          split: option.splits)
qed

text \<open>Every further delta appends to the text and rewrites the component.\<close>

lemma delta_open:
  assumes "streamingMd s = Some md" "md < length (objs s)"
    "objs s ! md = Markdown (Lit (streamingText s))"
  shows "deliver (map (text_delta i) ds) s
     = s\<lparr>streamingText := streamingText s @ concat ds,
          objs := (objs s)[md := Markdown (Lit (streamingText s @ concat ds))]\<rparr>"
  using assms
proof (induction ds arbitrary: s)
  case Nil
  have "(objs s)[md := Markdown (Lit (streamingText s))] = objs s"
    using Nil(3) list_update_id[of "objs s" md] by simp
  then show ?case by (simp add: deliver_Nil)
next
  case (Cons d ds)
  let ?s1 = "s\<lparr>streamingText := streamingText s @ d,
          objs := (objs s)[md := Markdown (Lit (streamingText s @ d))]\<rparr>"
  have step: "handleMessage (text_delta i d) s = ?s1"
    using Cons.prems
    by (simp add: text_delta_def on_stream_event_def ensureStreamingMd_def setText_def setObj_def)
  have "deliver (map (text_delta i) ds) ?s1
     = ?s1\<lparr>streamingText := streamingText ?s1 @ concat ds,
          objs := (objs ?s1)[md := Markdown (Lit (streamingText ?s1 @ concat ds))]\<rparr>"
    by (rule Cons.IH) (use Cons.prems in simp_all)
  then show ?case by (simp add: deliver_Cons step)
qed

text \<open>
  C1, as amended. From a fresh streaming state, a streamed message with a block-start, at
  least one text delta, a block-stop and a message-stop leaves exactly one new component,
  a Markdown placed before the editor whose text is the deltas' payloads concatenated in
  order (the loader, if one was shown, is removed), and the streaming state is empty
  again: no streaming text, no streaming component.
\<close>

theorem stream_reassembly:
  assumes "streamingText s = []" and "streamingMd s = None" and "ds \<noteq> []"
  shows "deliver (streamed i b ds) s
           = finalizeStream (insertNew (Markdown (Lit (concat ds))) (removeLoader s))
         \<and> objs (deliver (streamed i b ds) s)
           = objs (removeLoader s) @ [Markdown (Lit (concat ds))]
         \<and> streamingText (deliver (streamed i b ds) s) = []
         \<and> streamingMd (deliver (streamed i b ds) s) = None"
proof -
  obtain d rest where ds: "ds = d # rest" using assms(3) by (cases ds) auto
  let ?r = "removeLoader s"
  let ?md = "length (objs ?r)"
  let ?s1 = "(insertNew (Markdown (Lit d)) ?r)\<lparr>streamingText := d, streamingMd := Some ?md\<rparr>"
  have start: "on_stream_event (ContentBlockStart i b) s = s"
    by (simp add: on_stream_event_def)
  have first: "handleMessage (text_delta i d) s = ?s1"
    by (rule delta_first[OF assms(1,2)])
  have more: "deliver (map (text_delta i) rest) ?s1
      = ?s1\<lparr>streamingText := streamingText ?s1 @ concat rest,
             objs := (objs ?s1)[?md := Markdown (Lit (streamingText ?s1 @ concat rest))]\<rparr>"
    by (rule delta_open) (simp_all add: insertNew_objs)
  have tail: "on_stream_event MessageStop (on_stream_event (ContentBlockStop i) a)
      = finalizeStream a" for a
    by (simp add: on_stream_event_def)
  have "deliver (streamed i b ds) s = finalizeStream (deliver (map (text_delta i) rest) ?s1)"
    by (simp add: streamed_def ds deliver_append deliver_Cons deliver_Nil start first tail)
  also have "\<dots> = finalizeStream
      ((insertNew (Markdown (Lit d)) ?r)
         \<lparr>objs := (objs ?r @ [Markdown (Lit d)])[?md := Markdown (Lit (concat ds))]\<rparr>)"
    by (simp add: more ds insertNew_objs finalizeStream_def)
  also have "\<dots> = finalizeStream (insertNew (Markdown (Lit (concat ds))) ?r)"
    by (simp only: insertNew_retext)
  finally have eq: "deliver (streamed i b ds) s
      = finalizeStream (insertNew (Markdown (Lit (concat ds))) ?r)" .
  show ?thesis
    by (simp add: eq insertNew_objs) (simp add: finalizeStream_def insertNew_objs)
qed

theorem stream_reassembly_witness:
  "streamingText (app0 ''S1'' ''tui-1'') = []
   \<and> streamingMd (app0 ''S1'' ''tui-1'') = None
   \<and> [''Hi'', '' there''] \<noteq> []
   \<and> objs (deliver (streamed 0 (TextBlock []) [''Hi'', '' there'']) (app0 ''S1'' ''tui-1''))
       = objs (app0 ''S1'' ''tui-1'') @ [Markdown (Lit ''Hi there'')]
   \<and> children (deliver (streamed 0 (TextBlock []) [''Hi'', '' there'']) (app0 ''S1'' ''tui-1''))
       = [0, 1, 2, 4, 3]
   \<and> streamingText (deliver (streamed 0 (TextBlock []) [''Hi'', '' there'']) (app0 ''S1'' ''tui-1''))
       = []
   \<and> streamingMd (deliver (streamed 0 (TextBlock []) [''Hi'', '' there'']) (app0 ''S1'' ''tui-1''))
       = None"
  using stream_reassembly[of "app0 ''S1'' ''tui-1''" "[''Hi'', '' there'']" 0 "TextBlock []"]
  by (simp add: app0_def removeLoader_def finalizeStream_def insertNew_def new_def
        insertBeforeEditor_def)

text \<open>
  With no text delta the claim as first stated fails: nothing is produced, where it
  promises one completed message with the empty text.
\<close>

theorem stream_reassembly_counterexample:
  "deliver (streamed 0 (TextBlock []) []) (app0 ''S1'' ''tui-1'')
     \<noteq> finalizeStream (insertNew (Markdown (Lit (concat []))) (removeLoader (app0 ''S1'' ''tui-1'')))
   \<and> objs (deliver (streamed 0 (TextBlock []) []) (app0 ''S1'' ''tui-1''))
       = objs (app0 ''S1'' ''tui-1'')
   \<and> children (deliver (streamed 0 (TextBlock []) []) (app0 ''S1'' ''tui-1''))
       = children (app0 ''S1'' ''tui-1'')"
proof -
  have run: "deliver (streamed 0 (TextBlock []) []) (app0 ''S1'' ''tui-1'') = app0 ''S1'' ''tui-1''"
    by (simp add: streamed_def deliver_def on_stream_event_def finalizeStream_def app0_def)
  have "length (objs (finalizeStream (insertNew (Markdown (Lit (concat [])))
            (removeLoader (app0 ''S1'' ''tui-1''))))) = 5"
    by (simp add: finalizeStream_def insertNew_objs) (simp add: removeLoader_def app0_def)
  moreover have "length (objs (app0 ''S1'' ''tui-1'')) = 4"
    by (simp add: app0_def)
  ultimately have "app0 ''S1'' ''tui-1''
      \<noteq> finalizeStream (insertNew (Markdown (Lit (concat []))) (removeLoader (app0 ''S1'' ''tui-1'')))"
    by (metis numeral_eq_iff semiring_norm(89))
  then show ?thesis by (simp add: run)
qed

subsection \<open>Deltas without an open block\<close>



subsection \<open>The session snapshot\<close>

lemma insertNew_session: "session (insertNew c a) = session a"
  by (simp add: insertNew_def new_def insertBeforeEditor_def addChild_def split: option.splits)

lemma removeLoader_session: "session (removeLoader a) = session a"
  by (auto simp: removeLoader_def loader_stop_def removeChild_def setObj_def
           split: option.splits Component.splits)

lemma result_session:
  "session (on_result d s) =
     map_option (\<lambda>cur. cur\<lparr>total_cost_usd := r_total_cost_usd d, num_turns := r_num_turns d\<rparr>) (session s)"
  by (cases "session s")
     (auto simp: on_result_def Let_def insertNew_session removeLoader_session finalizeStream_def
        dropBanner_def setFocus_def removeChild_def
      split: option.splits list.splits)

text \<open>
  C7. Applying a partial session update to the snapshot is a shallow merge: every field the
  patch names takes the patch's value, every field it does not name keeps its value, and
  nothing else in the state changes. A session-init replaces the snapshot by the new
  session state. A result overwrites the snapshot's cost and turn count and no other field.
\<close>

theorem session_update_shallow_merge:
  assumes "session s = Some cur"
  shows "handleMessage (Msg q (SessionUpdate p)) s = s\<lparr>session := Some (assign cur p)\<rparr>
    \<and> session_id (assign cur p) = (case p_session_id p of Some v \<Rightarrow> v | None \<Rightarrow> session_id cur)
    \<and> backend_type (assign cur p)
        = (case p_backend_type p of Some v \<Rightarrow> Some v | None \<Rightarrow> backend_type cur)
    \<and> model (assign cur p) = (case p_model p of Some v \<Rightarrow> v | None \<Rightarrow> model cur)
    \<and> cwd (assign cur p) = (case p_cwd p of Some v \<Rightarrow> v | None \<Rightarrow> cwd cur)
    \<and> tools (assign cur p) = (case p_tools p of Some v \<Rightarrow> v | None \<Rightarrow> tools cur)
    \<and> permissionMode (assign cur p)
        = (case p_permissionMode p of Some v \<Rightarrow> v | None \<Rightarrow> permissionMode cur)
    \<and> claude_code_version (assign cur p)
        = (case p_claude_code_version p of Some v \<Rightarrow> v | None \<Rightarrow> claude_code_version cur)
    \<and> mcp_servers (assign cur p)
        = (case p_mcp_servers p of Some v \<Rightarrow> v | None \<Rightarrow> mcp_servers cur)
    \<and> total_cost_usd (assign cur p)
        = (case p_total_cost_usd p of Some v \<Rightarrow> v | None \<Rightarrow> total_cost_usd cur)
    \<and> num_turns (assign cur p) = (case p_num_turns p of Some v \<Rightarrow> v | None \<Rightarrow> num_turns cur)
    \<and> context_used_percent (assign cur p)
        = (case p_context_used_percent p of Some v \<Rightarrow> v | None \<Rightarrow> context_used_percent cur)
    \<and> is_compacting (assign cur p)
        = (case p_is_compacting p of Some v \<Rightarrow> v | None \<Rightarrow> is_compacting cur)
    \<and> handleMessage (Msg q (SessionInit ss)) s = s\<lparr>session := Some ss\<rparr>
    \<and> session (handleMessage (Msg q (Result d)) s)
        = Some (cur\<lparr>total_cost_usd := r_total_cost_usd d, num_turns := r_num_turns d\<rparr>)"
  using assms
  by (simp add: on_session_update_def on_session_init_def result_session) (simp add: assign_def)

theorem session_update_shallow_merge_witness:
  "session (on_session_init demo_session (app0 ''S1'' ''tui-1'')) = Some demo_session
   \<and> session (handleMessage (Msg None (SessionUpdate demo_patch))
                 (on_session_init demo_session (app0 ''S1'' ''tui-1'')))
       = Some (demo_session\<lparr>model := ''m2'', num_turns := 3\<rparr>)"
  using session_update_shallow_merge[of "on_session_init demo_session (app0 ''S1'' ''tui-1'')"
      demo_session None demo_patch]
  by (simp add: on_session_init_def) (simp add: assign_def demo_session_def demo_patch_def)

subsection \<open>Answering a permission prompt\<close>

lemma listener_pass:
  "\<not> mk data ''escape'' \<Longrightarrow> \<not> mk data ''ctrl+c'' \<Longrightarrow> inputListener mk data now s = (False, s)"
  by (simp add: inputListener_def)

text \<open>
  C9. Answering a focused permission prompt with the key for "always allow" does exactly
  what answering with the key for "allow" does: the banner calls its callback with
  \<open>Allow\<close>, the one frame that goes out (if the socket is open) is the permission response
  with behaviour allow, and the two resulting states are equal, so nothing further is
  recorded.
\<close>

theorem always_allow_same_as_allow:
  assumes "mk da ''a''" and "\<not> mk da ''n''" and "\<not> mk da ''escape''" and "\<not> mk da ''ctrl+c''"
    and "mk dy ''y''" and "\<not> mk dy ''escape''" and "\<not> mk dy ''ctrl+c''"
    and "\<not> exited s" and "focus s = Some f" and "f < length (objs s)"
    and "objs s ! f = PermissionBanner req"
  shows "banner_handleInput mk da = Some Allow
    \<and> banner_handleInput mk dy = Some Allow
    \<and> tui_handleInput mk da now r s = onRespond req Allow s
    \<and> tui_handleInput mk dy now r s = onRespond req Allow s
    \<and> sent (onRespond req Allow s)
        = sent s @ (if ws s = Some OPEN then [CPermissionResponse (request_id req) Allow (uuids s)]
                    else [])"
proof -
  have a: "banner_handleInput mk da = Some Allow"
    using assms(1-3) by (simp add: banner_handleInput_def)
  have y: "banner_handleInput mk dy = Some Allow"
    using assms(5) by (simp add: banner_handleInput_def)
  have ta: "tui_handleInput mk da now r s = onRespond req Allow s"
    using assms(3,4,8-11) a
    by (simp add: tui_handleInput_def listener_pass focused_handleInput_def)
  have ty: "tui_handleInput mk dy now r s = onRespond req Allow s"
    using assms(6-11) y
    by (simp add: tui_handleInput_def listener_pass focused_handleInput_def)
  have snt: "sent (onRespond req Allow s)
        = sent s @ (if ws s = Some OPEN then [CPermissionResponse (request_id req) Allow (uuids s)]
                    else [])"
    by (auto simp: onRespond_def sendPermissionResponse_def randomUUID_def send_def Let_def
          dropBanner_def removeChild_def startLoader_def new_def insertBeforeEditor_def
          addChild_def setFocus_def split: option.splits)
  show ?thesis using a y ta ty snt by simp
qed

theorem always_allow_same_as_allow_witness:
  "rawKey ''a'' ''a'' \<and> \<not> rawKey ''a'' ''n'' \<and> \<not> rawKey ''a'' ''escape'' \<and> \<not> rawKey ''a'' ''ctrl+c''
   \<and> rawKey ''y'' ''y'' \<and> \<not> rawKey ''y'' ''escape'' \<and> \<not> rawKey ''y'' ''ctrl+c''
   \<and> \<not> exited (on_permission_request demo_request demo_open)
   \<and> ws (on_permission_request demo_request demo_open) = Some OPEN
   \<and> focus (on_permission_request demo_request demo_open) = Some 4
   \<and> objs (on_permission_request demo_request demo_open) ! 4 = PermissionBanner demo_request
   \<and> tui_handleInput rawKey ''a'' 0 NoCallback (on_permission_request demo_request demo_open)
       = tui_handleInput rawKey ''y'' 0 NoCallback (on_permission_request demo_request demo_open)
   \<and> sent (tui_handleInput rawKey ''a'' 0 NoCallback (on_permission_request demo_request demo_open))
       = [CSessionSubscribe 0 ''tui-1'', CPermissionResponse ''req-1'' Allow 0]
   \<and> sent (tui_handleInput rawKey ''y'' 0 NoCallback (on_permission_request demo_request demo_open))
       = [CSessionSubscribe 0 ''tui-1'', CPermissionResponse ''req-1'' Allow 0]"
proof -
  let ?s = "on_permission_request demo_request demo_open"
  have k: "rawKey ''a'' ''a''" "\<not> rawKey ''a'' ''n''" "\<not> rawKey ''a'' ''escape''"
    "\<not> rawKey ''a'' ''ctrl+c''" "rawKey ''y'' ''y''" "\<not> rawKey ''y'' ''escape''"
    "\<not> rawKey ''y'' ''ctrl+c''"
    by (simp_all add: rawKey_def)
  have st: "\<not> exited ?s" "focus ?s = Some 4" "4 < length (objs ?s)"
    "objs ?s ! 4 = PermissionBanner demo_request"
    by (simp_all add: on_permission_request_def removeLoader_def new_def insertBeforeEditor_def
          setFocus_def demo_open_def connect_def ws_on_open_def onStatusChange_def send_def
          app0_def Let_def)
  have io: "ws ?s = Some OPEN" "sent ?s = [CSessionSubscribe 0 ''tui-1'']" "uuids ?s = 0"
    "request_id demo_request = ''req-1''"
    by (simp_all add: on_permission_request_def removeLoader_def new_def insertBeforeEditor_def
          setFocus_def demo_open_def connect_def ws_on_open_def onStatusChange_def send_def
          app0_def demo_request_def Let_def)
  note t = always_allow_same_as_allow[of rawKey "''a''" "''y''" ?s 4 demo_request 0 NoCallback,
      OF k st]
  have eq: "tui_handleInput rawKey ''a'' 0 NoCallback ?s = tui_handleInput rawKey ''y'' 0 NoCallback ?s"
    using t by simp
  have sa: "sent (tui_handleInput rawKey ''a'' 0 NoCallback ?s)
       = [CSessionSubscribe 0 ''tui-1'', CPermissionResponse ''req-1'' Allow 0]"
    using t io by simp
  have sy: "sent (tui_handleInput rawKey ''y'' 0 NoCallback ?s)
       = [CSessionSubscribe 0 ''tui-1'', CPermissionResponse ''req-1'' Allow 0]"
    using t io by simp
  show ?thesis using k st(1,2,4) io(1) eq sa sy by (intro conjI)
qed

subsection \<open>Frames that are not JSON\<close>

lemma cli_lines_drop:
  "parse (trim l) = None \<Longrightarrow>
   handleCliLines parse body (pre @ l # post) st = handleCliLines parse body (pre @ post) st"
proof (induction pre arbitrary: st)
  case Nil
  then show ?case by (simp add: Let_def)
next
  case (Cons a pre)
  then show ?case by (auto simp: Let_def split: option.splits outcome.splits)
qed

text \<open>
  C5, as amended. A frame that is not valid JSON is dropped without a trace: the client's
  message handler returns with the state as it was (nothing shown, nothing sent, the
  socket untouched), and the events before and after it are processed as if the frame had
  never arrived. For the NDJSON server, a line of a chunk that does not parse is skipped:
  the chunk is handled as if the line were not in it, and a chunk that is only such a
  line returns normally with the state unchanged.
\<close>

theorem malformed_frame_dropped:
  assumes "parse raw = None" and "lparse (trim l) = None"
  shows "ws_on_message parse raw s = s
    \<and> app_step mk parse s (WsMessage raw) = s
    \<and> app_run mk parse (evs @ WsMessage raw # evs') s = app_run mk parse (evs @ evs') s
    \<and> handleCliLines lparse body (pre @ l # post) st = handleCliLines lparse body (pre @ post) st
    \<and> handleCliLines lparse body [l] st = Returned st"
proof -
  have a: "ws_on_message parse raw a = a" for a
    using assms(1) by (simp add: ws_on_message_def)
  have b: "app_step mk parse a (WsMessage raw) = a" for a
    by (simp add: app_step_def a)
  have c: "app_run mk parse (evs @ WsMessage raw # evs') s = app_run mk parse (evs @ evs') s"
    by (simp add: app_run_def b)
  have d: "handleCliLines lparse body (pre @ l # post) st = handleCliLines lparse body (pre @ post) st"
    using assms(2) by (rule cli_lines_drop)
  have e: "handleCliLines lparse body [l] st = Returned st"
    using cli_lines_drop[of lparse l body "[]" "[]" st] assms(2) by simp
  show ?thesis using a b c d e by simp
qed

theorem malformed_frame_dropped_witness:
  "demo_parse ''not json'' = None
   \<and> demo_line_parse (trim ''{oops'') = None
   \<and> sent (app_run rawKey demo_parse [WsOpen, WsMessage ''not json'', WsMessage ''connected@7'', WsClose,
              ReconnectTimer, WsOpen] (connect (app0 ''S1'' ''tui-1'')))
       = [CSessionSubscribe 0 ''tui-1'', CSessionSubscribe 7 ''tui-1'']
   \<and> handleCliMessage demo_line_parse demo_body (''1'' @ [CHR 0x0A] @ ''{oops'' @ [CHR 0x0A] @ ''2'') []
       = Returned [1, 2]"
proof -
  have h: "demo_parse ''not json'' = None" "demo_line_parse (trim ''{oops'') = None"
    by (simp_all add: demo_parse_def demo_line_parse_def trim_def space_len_def js_spaces_def)
  have sp: "split_on (CHR 0x0A) (''1'' @ [CHR 0x0A] @ ''{oops'' @ [CHR 0x0A] @ ''2'') = [''1''] @ ''{oops'' # [''2'']"
    by (simp add: split_on_def)
  have good: "handleCliLines demo_line_parse demo_body ([''1''] @ [''2'']) [] = Returned [1, 2]"
    by (simp add: demo_line_parse_def demo_body_def trim_def space_len_def js_spaces_def)
  have run: "sent (app_run rawKey demo_parse ([WsOpen] @ [WsMessage ''connected@7'', WsClose,
              ReconnectTimer, WsOpen]) (connect (app0 ''S1'' ''tui-1'')))
       = [CSessionSubscribe 0 ''tui-1'', CSessionSubscribe 7 ''tui-1'']"
    by (simp add: app_run_def app_step_def connect_def onStatusChange_def ws_on_open_def
          ws_on_close_def scheduleReconnect_def ws_on_message_def demo_parse_def
          send_def insertNew_def new_def insertBeforeEditor_def app0_def Let_def)
  from malformed_frame_dropped[where parse = demo_parse and raw = "''not json''"
      and lparse = demo_line_parse and l = "''{oops''" and mk = rawKey and evs = "[WsOpen]"
      and evs' = "[WsMessage ''connected@7'', WsClose, ReconnectTimer, WsOpen]"
      and s = "connect (app0 ''S1'' ''tui-1'')"
      and body = demo_body and pre = "[''1'']" and post = "[''2'']" and st = "[]"]
  show ?thesis using h sp good run by (simp add: handleCliMessage_def)
qed

text \<open>
  The claim as first stated asks for a diagnostic. There is none: after the malformed
  frame the whole state, which holds every component shown and every frame sent, is the
  state before it.
\<close>

theorem malformed_frame_counterexample:
  "demo_parse ''not json'' = None
   \<and> ws_on_message demo_parse ''not json'' (ws_on_open (connect (app0 ''S1'' ''tui-1'')))
       = ws_on_open (connect (app0 ''S1'' ''tui-1''))
   \<and> handleCliMessage demo_line_parse demo_body ''{oops'' [] = Returned []"
  by (simp add: demo_parse_def ws_on_message_def handleCliMessage_def split_on_def
        demo_line_parse_def trim_def space_len_def js_spaces_def)

subsection \<open>The sequence number the client resubscribes with\<close>

text \<open>\<open>handleMessage\<close> touches nothing of the client: not the cursor, not the socket, not the frames sent.\<close>

lemma cp_prims [simp]:
  "client_part (addChild c x) = client_part x"
  "client_part (removeChild c x) = client_part x"
  "client_part (insertBeforeEditor c x) = client_part x"
  "client_part (setFocus c x) = client_part x"
  "client_part (setObj l cm x) = client_part x"
  "client_part (finalizeStream x) = client_part x"
  by (auto simp: client_part_def addChild_def removeChild_def insertBeforeEditor_def
        setFocus_def setObj_def finalizeStream_def split: option.splits)

lemma cp_loader [simp]:
  "client_part (loader_stop l x) = client_part x"
  "client_part (loader_setMessage l m x) = client_part x"
  "client_part (setText md t x) = client_part x"
  "client_part (header_setText n x) = client_part x"
  by (auto simp: loader_stop_def loader_setMessage_def setText_def header_setText_def
        split: Component.splits)

lemma cp_upd [simp]:
  "client_part (x\<lparr>loader := a\<rparr>) = client_part x"
  "client_part (x\<lparr>permissionBanner := b\<rparr>) = client_part x"
  "client_part (x\<lparr>streamingText := c\<rparr>) = client_part x"
  "client_part (x\<lparr>streamingMd := d\<rparr>) = client_part x"
  "client_part (x\<lparr>session := e\<rparr>) = client_part x"
  "client_part (x\<lparr>isRunning := f\<rparr>) = client_part x"
  "client_part (x\<lparr>disableSubmit := g\<rparr>) = client_part x"
  "client_part (x\<lparr>locallyTriggered := h\<rparr>) = client_part x"
  "client_part (x\<lparr>lastMcpServers := i\<rparr>) = client_part x"
  "client_part (x\<lparr>objs := j\<rparr>) = client_part x"
  by (simp_all add: client_part_def)

lemma cp_composite [simp]:
  "client_part (removeLoader x) = client_part x"
  "client_part (insertNew c x) = client_part x"
  "client_part (startLoader m x) = client_part x"
  "client_part (dropBanner x) = client_part x"
  "client_part (snd (ensureStreamingMd x)) = client_part x"
  by (auto simp: removeLoader_def insertNew_def startLoader_def dropBanner_def
        ensureStreamingMd_def new_def Let_def split: option.splits)

lemma cp_handlers [simp]:
  "client_part (on_session_init ss x) = client_part x"
  "client_part (on_session_update p x) = client_part x"
  "client_part (on_user_message c sd x) = client_part x"
  "client_part (on_assistant bs x) = client_part x"
  "client_part (on_stream_event ev x) = client_part x"
  "client_part (on_result d x) = client_part x"
  "client_part (on_permission_request req x) = client_part x"
  "client_part (on_permission_cancelled x) = client_part x"
  "client_part (on_tool_progress t e x) = client_part x"
  "client_part (on_status_change st x) = client_part x"
  "client_part (renderMcpStatus sv x) = client_part x"
  by (auto simp: on_session_init_def on_session_update_def on_user_message_def on_assistant_def
        on_stream_event_def on_result_def on_permission_request_def on_permission_cancelled_def
        on_tool_progress_def on_status_change_def renderMcpStatus_def new_def Let_def split_beta
        split: option.splits list.splits StreamEvent.splits Delta.splits)

lemma cp_handleMessage:
  "client_part (handleMessage m x) = client_part x"
  "client_part (handleHistory ms x) = client_part x"
  "client_part (handleReplay evs x) = client_part x"
  by (induction m x and ms x and evs x rule: handleMessage_handleHistory_handleReplay.induct)
     simp_all

text \<open>
  C3. The client should resubscribe from the sequence number of the last message it
  processed. What it does: \<open>lastSeq\<close> becomes the \<^verbatim>\<open>seq\<close> of a frame that carries one at
  its top level and is otherwise left alone, whatever the frame holds; and every time the
  socket opens the client subscribes with \<open>lastSeq\<close>. So for a message that arrives on
  its own the cursor follows (after a frame tagged 7 the client resubscribes with 7), and
  for a message tagged 5 that arrives inside an \<^verbatim>\<open>event_replay\<close> frame it does not: the
  message is processed (its notice is shown), \<open>lastSeq\<close> stays 0, and on the next
  connection the client asks for the replay from 0 again.
\<close>

theorem replay_does_not_advance_lastSeq:
  "lastSeq (ws_on_message parse raw s)
     = (case parse raw of
          Some (Message m) \<Rightarrow> (case seq m of Some q \<Rightarrow> q | None \<Rightarrow> lastSeq s)
        | _ \<Rightarrow> lastSeq s)
   \<and> sent (ws_on_open s) = sent s @ [CSessionSubscribe (lastSeq s) (clientId s)]
   \<and> sent (app_run rawKey demo_parse
           [WsOpen, WsMessage ''replay[connected@5]'', WsClose, ReconnectTimer, WsOpen]
           (connect (app0 ''S1'' ''tui-1'')))
     = [CSessionSubscribe 0 ''tui-1'', CSessionSubscribe 0 ''tui-1'']
   \<and> objs (app_run rawKey demo_parse [WsOpen, WsMessage ''replay[connected@5]'']
             (connect (app0 ''S1'' ''tui-1''))) ! 4
     = Text (NoticeText CliConnectedNotice)
   \<and> lastSeq (app_run rawKey demo_parse [WsOpen, WsMessage ''replay[connected@5]'']
             (connect (app0 ''S1'' ''tui-1''))) = 0
   \<and> sent (app_run rawKey demo_parse
           [WsOpen, WsMessage ''connected@7'', WsClose, ReconnectTimer, WsOpen]
           (connect (app0 ''S1'' ''tui-1'')))
     = [CSessionSubscribe 0 ''tui-1'', CSessionSubscribe 7 ''tui-1'']"
proof -
  have cursor: "lastSeq (handleMessage m a) = lastSeq a" for m a
    using cp_handleMessage(1)[of m a] by (simp add: client_part_def)
  have a: "lastSeq (ws_on_message parse raw s)
     = (case parse raw of
          Some (Message m) \<Rightarrow> (case seq m of Some q \<Rightarrow> q | None \<Rightarrow> lastSeq s)
        | _ \<Rightarrow> lastSeq s)"
    by (simp add: ws_on_message_def cursor split: option.splits Parsed.splits)
  have b: "sent (ws_on_open s) = sent s @ [CSessionSubscribe (lastSeq s) (clientId s)]"
    by (simp add: ws_on_open_def onStatusChange_def send_def)
  have c: "sent (app_run rawKey demo_parse
           [WsOpen, WsMessage ''replay[connected@5]'', WsClose, ReconnectTimer, WsOpen]
           (connect (app0 ''S1'' ''tui-1'')))
     = [CSessionSubscribe 0 ''tui-1'', CSessionSubscribe 0 ''tui-1'']"
    "objs (app_run rawKey demo_parse [WsOpen, WsMessage ''replay[connected@5]'']
             (connect (app0 ''S1'' ''tui-1''))) ! 4
     = Text (NoticeText CliConnectedNotice)"
    "lastSeq (app_run rawKey demo_parse [WsOpen, WsMessage ''replay[connected@5]'']
             (connect (app0 ''S1'' ''tui-1''))) = 0"
    "sent (app_run rawKey demo_parse
           [WsOpen, WsMessage ''connected@7'', WsClose, ReconnectTimer, WsOpen]
           (connect (app0 ''S1'' ''tui-1'')))
     = [CSessionSubscribe 0 ''tui-1'', CSessionSubscribe 7 ''tui-1'']"
    by (simp_all add: app_run_def app_step_def connect_def onStatusChange_def ws_on_open_def
          ws_on_close_def scheduleReconnect_def ws_on_message_def demo_parse_def
          send_def insertNew_def new_def insertBeforeEditor_def app0_def Let_def)
  show ?thesis using a b c by simp
qed

subsection \<open>At most one response for a prompt\<close>

lemma kind_of_Editor: "kind_of c = KEditor \<longleftrightarrow> c = Editor"
  by (cases c) auto

lemma kind_of_Banner: "kind_of c = KBanner req \<longleftrightarrow> c = PermissionBanner req"
  by (cases c) auto

lemma wf_kinds:
  "well_formed s = (editor s < length (kinds s) \<and> kinds s ! editor s = KEditor
           \<and> (case focus s of None \<Rightarrow> True | Some f \<Rightarrow> f < length (kinds s)))"
  by (auto simp: well_formed_def kinds_def kind_of_Editor split: option.splits)

lemma prompt_kinds:
  "prompt_focused r s =
     (case focus s of
        None \<Rightarrow> 0
      | Some f \<Rightarrow>
          if f < length (kinds s) then
            (case kinds s ! f of KBanner req \<Rightarrow> if request_id req = r then 1 else 0 | _ \<Rightarrow> 0)
          else 0)"
proof (cases "focus s")
  case None
  then show ?thesis by (simp add: prompt_focused_def)
next
  case (Some f)
  show ?thesis
  proof (cases "f < length (objs s)")
    case True
    then show ?thesis using Some
      by (cases "objs s ! f") (simp_all add: prompt_focused_def kinds_def)
  next
    case False
    then show ?thesis using Some by (simp add: prompt_focused_def kinds_def)
  qed
qed

lemma calm_refl: "calm r 0 s s"
  by (simp add: calm_def)

lemma calm_weaken: "calm r k s x \<Longrightarrow> k \<le> k' \<Longrightarrow> calm r k' s x"
  by (auto simp: calm_def)

text \<open>The general shape of a step that answers nothing and focuses no prompt.\<close>

lemma calm_ext:
  assumes "calm r k s x"
    and "editor x' = editor x"
    and "kinds x' = kinds x @ ext"
    and "responses r x' = responses r x"
    and "focus x' = focus x \<or> focus x' = Some (editor x)
         \<or> (\<exists>l. focus x' = Some l \<and> l < length (kinds x @ ext) \<and> (kinds x @ ext) ! l = KOther)"
  shows "calm r k s x'"
proof -
  have "well_formed x' \<and> responses r x' + prompt_focused r x' \<le> responses r x + prompt_focused r x"
    if w: "well_formed x"
  proof -
    from w have e: "editor x < length (kinds x)" "kinds x ! editor x = KEditor"
      and f: "\<And>f. focus x = Some f \<Longrightarrow> f < length (kinds x)"
      by (auto simp: wf_kinds)
    have resp: "responses r x' = responses r x" using assms(4) .
    from assms(5) consider (same) "focus x' = focus x" | (ed) "focus x' = Some (editor x)"
      | (fresh) l where "focus x' = Some l" "l < length (kinds x @ ext)" "(kinds x @ ext) ! l = KOther"
      by blast
    then show ?thesis
    proof cases
      case same
      then show ?thesis using e f assms(2,3) resp
        by (auto simp: wf_kinds prompt_kinds nth_append split: option.splits)
    next
      case ed
      then show ?thesis using e assms(2,3) resp
        by (auto simp: wf_kinds prompt_kinds nth_append split: option.splits)
    next
      case fresh
      then show ?thesis using e assms(2,3) resp
        by (auto simp: wf_kinds prompt_kinds nth_append split: option.splits)
    qed
  qed
  with assms(1) show ?thesis by (auto simp: calm_def)
qed

lemma calm_same:
  assumes "calm r k s x" and "editor x' = editor x" and "kinds x' = kinds x"
    and "sent x' = sent x" and "focus x' = focus x"
  shows "calm r k s x'"
  using calm_ext[OF assms(1,2), of "[]"] assms(3-5) by (simp add: responses_def)


lemma calm_field_updates [calm_intros]:
  "calm r k s x \<Longrightarrow> calm r k s (children_update g0 x)"
  "calm r k s x \<Longrightarrow> calm r k s (disableSubmit_update g1 x)"
  "calm r k s x \<Longrightarrow> calm r k s (connectionStatus_update g2 x)"
  "calm r k s x \<Longrightarrow> calm r k s (session_update g3 x)"
  "calm r k s x \<Longrightarrow> calm r k s (isRunning_update g4 x)"
  "calm r k s x \<Longrightarrow> calm r k s (gitBranch_update g5 x)"
  "calm r k s x \<Longrightarrow> calm r k s (streamingText_update g6 x)"
  "calm r k s x \<Longrightarrow> calm r k s (streamingMd_update g7 x)"
  "calm r k s x \<Longrightarrow> calm r k s (loader_update g8 x)"
  "calm r k s x \<Longrightarrow> calm r k s (permissionBanner_update g9 x)"
  "calm r k s x \<Longrightarrow> calm r k s (locallyTriggered_update g10 x)"
  "calm r k s x \<Longrightarrow> calm r k s (lastMcpServers_update g11 x)"
  "calm r k s x \<Longrightarrow> calm r k s (lastCtrlC_update g12 x)"
  "calm r k s x \<Longrightarrow> calm r k s (ws_update g13 x)"
  "calm r k s x \<Longrightarrow> calm r k s (lastSeq_update g14 x)"
  "calm r k s x \<Longrightarrow> calm r k s (reconnectTimer_update g15 x)"
  "calm r k s x \<Longrightarrow> calm r k s (disposed_update g16 x)"
  "calm r k s x \<Longrightarrow> calm r k s (clientId_update g17 x)"
  "calm r k s x \<Longrightarrow> calm r k s (uuids_update g18 x)"
  "calm r k s x \<Longrightarrow> calm r k s (mcpTimers_update g19 x)"
  "calm r k s x \<Longrightarrow> calm r k s (exited_update g20 x)"
  "calm r k s x \<Longrightarrow> calm r k s (header_update g21 x)"
  "calm r k s x \<Longrightarrow> calm r k s (statusBar_update g22 x)"
  by (erule calm_same; simp add: kinds_def)+

lemma kinds_update_same:
  "l < length xs \<Longrightarrow> kind_of c = kind_of (xs ! l) \<Longrightarrow> map kind_of (xs[l := c]) = map kind_of xs"
  by (simp add: map_update list_update_same_conv)

lemma same_view_calm: "same_view x' x \<Longrightarrow> calm r k s x \<Longrightarrow> calm r k s x'"
  by (rule calm_same) (simp_all add: same_view_def)

lemma same_view_editor: "same_view x' x \<Longrightarrow> editor x' = editor x"
  by (simp add: same_view_def)

lemma sv_addChild: "same_view (addChild c x) x"
  by (auto simp: same_view_def kinds_def kinds_update_same addChild_def
        split: option.splits Component.splits)

lemma sv_removeChild: "same_view (removeChild c x) x"
  by (auto simp: same_view_def kinds_def kinds_update_same removeChild_def
        split: option.splits Component.splits)

lemma sv_insertBeforeEditor: "same_view (insertBeforeEditor c x) x"
  by (auto simp: same_view_def kinds_def kinds_update_same insertBeforeEditor_def addChild_def
        split: option.splits Component.splits)

lemma sv_loader_stop: "same_view (loader_stop l x) x"
  by (auto simp: same_view_def kinds_def kinds_update_same loader_stop_def setObj_def
        split: option.splits Component.splits)

lemma sv_loader_setMessage: "same_view (loader_setMessage l m x) x"
  by (auto simp: same_view_def kinds_def kinds_update_same loader_setMessage_def setObj_def
        split: option.splits Component.splits)

lemma sv_removeLoader: "same_view (removeLoader x) x"
  by (auto simp: same_view_def kinds_def kinds_update_same removeLoader_def loader_stop_def setObj_def removeChild_def
        split: option.splits Component.splits)

lemma sv_finalizeStream: "same_view (finalizeStream x) x"
  by (auto simp: same_view_def kinds_def kinds_update_same finalizeStream_def
        split: option.splits Component.splits)

lemma sv_setText: "same_view (setText md t x) x"
  by (auto simp: same_view_def kinds_def kinds_update_same setText_def setObj_def
        split: option.splits Component.splits)

lemma sv_header_setText: "same_view (header_setText n x) x"
  by (auto simp: same_view_def kinds_def kinds_update_same header_setText_def setObj_def
        split: option.splits Component.splits)

lemma sv_dropBanner: "same_view (dropBanner x) x"
  by (auto simp: same_view_def kinds_def kinds_update_same dropBanner_def removeChild_def
        split: option.splits Component.splits)

lemma sv_on_session_init: "same_view (on_session_init ss x) x"
  by (auto simp: same_view_def kinds_def kinds_update_same on_session_init_def
        split: option.splits Component.splits)

lemma sv_on_session_update: "same_view (on_session_update p x) x"
  by (auto simp: same_view_def kinds_def kinds_update_same on_session_update_def
        split: option.splits Component.splits)

lemma sv_on_tool_progress: "same_view (on_tool_progress t e x) x"
  by (auto simp: same_view_def kinds_def kinds_update_same on_tool_progress_def loader_setMessage_def setObj_def
        split: option.splits Component.splits)

lemma sv_onStatusChange: "same_view (onStatusChange st x) x"
  by (auto simp: same_view_def kinds_def kinds_update_same onStatusChange_def
        split: option.splits Component.splits)

lemma sv_connect: "same_view (connect x) x"
  by (auto simp: same_view_def kinds_def kinds_update_same connect_def onStatusChange_def
        split: option.splits Component.splits)

lemma sv_scheduleReconnect: "same_view (scheduleReconnect x) x"
  by (auto simp: same_view_def kinds_def kinds_update_same scheduleReconnect_def
        split: option.splits Component.splits)

lemma sv_dispose: "same_view (dispose x) x"
  by (auto simp: same_view_def kinds_def kinds_update_same dispose_def
        split: option.splits Component.splits)

lemma sv_cleanup: "same_view (cleanup x) x"
  by (auto simp: same_view_def kinds_def kinds_update_same cleanup_def dispose_def
        split: option.splits Component.splits)

lemma sv_ws_on_close: "same_view (ws_on_close x) x"
  by (auto simp: same_view_def kinds_def kinds_update_same ws_on_close_def scheduleReconnect_def onStatusChange_def
        split: option.splits Component.splits)

lemmas sv_prims = sv_addChild sv_removeChild sv_insertBeforeEditor sv_loader_stop sv_loader_setMessage sv_removeLoader sv_finalizeStream sv_setText sv_header_setText sv_dropBanner sv_on_session_init sv_on_session_update sv_on_tool_progress sv_onStatusChange sv_connect sv_scheduleReconnect sv_dispose sv_cleanup sv_ws_on_close

lemmas editor_prims [simp] = sv_prims[THEN same_view_editor]

lemmas calm_prims [calm_intros] = sv_prims[THEN same_view_calm]


lemma resp_send:
  "\<not> is_response r m \<Longrightarrow> responses r (send m x) = responses r x"
  by (simp add: responses_def send_def)

lemma view_insertNew:
  "editor (insertNew c x) = editor x" "kinds (insertNew c x) = kinds x @ [kind_of c]"
  "sent (insertNew c x) = sent x" "focus (insertNew c x) = focus x"
  by (auto simp: insertNew_def new_def insertBeforeEditor_def addChild_def kinds_def
           split: option.splits)

lemma view_startLoader:
  "editor (startLoader m x) = editor x" "kinds (startLoader m x) = kinds x @ [KOther]"
  "sent (startLoader m x) = sent x" "focus (startLoader m x) = focus x"
  by (auto simp: startLoader_def new_def insertBeforeEditor_def addChild_def kinds_def
           split: option.splits)

lemma view_send:
  "editor (send m x) = editor x" "kinds (send m x) = kinds x" "focus (send m x) = focus x"
  by (auto simp: send_def kinds_def)

lemma view_setFocus:
  "editor (setFocus c x) = editor x" "kinds (setFocus c x) = kinds x"
  "sent (setFocus c x) = sent x" "focus (setFocus c x) = Some c"
  by (auto simp: setFocus_def kinds_def)

lemma view_uuid:
  "editor (snd (randomUUID x)) = editor x" "kinds (snd (randomUUID x)) = kinds x"
  "sent (snd (randomUUID x)) = sent x" "focus (snd (randomUUID x)) = focus x"
  "ws (snd (randomUUID x)) = ws x"
  by (auto simp: randomUUID_def kinds_def)

declare view_insertNew(1) [simp] view_startLoader(1) [simp] view_send(1) [simp]
  view_setFocus(1) [simp] view_uuid(1) [simp]

lemma calm_insertNew [calm_intros]: "calm r k s x \<Longrightarrow> calm r k s (insertNew c x)"
  by (erule calm_ext[where ext = "[kind_of c]"]) (simp_all add: view_insertNew responses_def)

lemma calm_startLoader [calm_intros]: "calm r k s x \<Longrightarrow> calm r k s (startLoader m x)"
  by (erule calm_ext[where ext = "[KOther]"]) (simp_all add: view_startLoader responses_def)

lemma calm_setFocus_editor [calm_intros]:
  "calm r k s x \<Longrightarrow> e = editor x \<Longrightarrow> calm r k s (setFocus e x)"
  by (erule calm_ext[where ext = "[]"]) (simp_all add: view_setFocus responses_def)

lemma calm_send:
  "calm r k s x \<Longrightarrow> \<not> is_response r m \<Longrightarrow> calm r k s (send m x)"
  by (erule calm_ext[where ext = "[]"]) (simp_all add: view_send resp_send)

lemma calm_uuid: "calm r k s x \<Longrightarrow> calm r k s (snd (randomUUID x))"
  by (erule calm_same) (simp_all add: view_uuid)

lemma calm_client [calm_intros]:
  "calm r k s x \<Longrightarrow> calm r k s (sendUserMessage t x)"
  "calm r k s x \<Longrightarrow> calm r k s (interrupt x)"
  "calm r k s x \<Longrightarrow> calm r k s (setModel t x)"
  "calm r k s x \<Longrightarrow> calm r k s (setPermissionMode t x)"
  "calm r k s x \<Longrightarrow> calm r k s (mcpGetStatus x)"
  "calm r k s x \<Longrightarrow> calm r k s (mcpToggle t b x)"
  "calm r k s x \<Longrightarrow> calm r k s (mcpReconnect t x)"
  by (simp_all add: sendUserMessage_def interrupt_def setModel_def setPermissionMode_def
        mcpGetStatus_def mcpToggle_def mcpReconnect_def split_beta calm_send calm_uuid
        is_response_def)

lemma editor_client [simp]:
  "editor (sendUserMessage t x) = editor x"
  "editor (interrupt x) = editor x"
  "editor (setModel t x) = editor x"
  "editor (setPermissionMode t x) = editor x"
  "editor (mcpGetStatus x) = editor x"
  "editor (mcpToggle t b x) = editor x"
  "editor (mcpReconnect t x) = editor x"
  "editor (sendPermissionResponse t bh x) = editor x"
  by (simp_all add: sendUserMessage_def interrupt_def setModel_def setPermissionMode_def
        mcpGetStatus_def mcpToggle_def mcpReconnect_def sendPermissionResponse_def split_beta)

lemma calm_ws_on_open [calm_intros]: "calm r k s x \<Longrightarrow> calm r k s (ws_on_open x)"
  by (auto simp: ws_on_open_def Let_def is_response_def intro!: calm_send calm_intros)

lemma view_ensure:
  "editor (snd (ensureStreamingMd x)) = editor x"
  "\<exists>ext. kinds (snd (ensureStreamingMd x)) = kinds x @ ext"
  "sent (snd (ensureStreamingMd x)) = sent x"
  "focus (snd (ensureStreamingMd x)) = focus x"
proof -
  have r: "editor (removeLoader x) = editor x" "kinds (removeLoader x) = kinds x"
    "sent (removeLoader x) = sent x" "focus (removeLoader x) = focus x"
    using sv_removeLoader[of x] by (simp_all add: same_view_def)
  show "editor (snd (ensureStreamingMd x)) = editor x"
    "\<exists>ext. kinds (snd (ensureStreamingMd x)) = kinds x @ ext"
    "sent (snd (ensureStreamingMd x)) = sent x"
    "focus (snd (ensureStreamingMd x)) = focus x"
    using r
    by (auto simp: ensureStreamingMd_def new_def insertBeforeEditor_def addChild_def Let_def
          kinds_def split: option.splits)
qed

declare view_ensure(1) [simp]

lemma calm_ensure [calm_intros]: "calm r k s x \<Longrightarrow> calm r k s (snd (ensureStreamingMd x))"
proof -
  assume c: "calm r k s x"
  obtain ext where e: "kinds (snd (ensureStreamingMd x)) = kinds x @ ext"
    using view_ensure(2) by blast
  show ?thesis
    by (rule calm_ext[OF c _ e]) (simp_all add: view_ensure responses_def)
qed

lemma calm_on_stream_event [calm_intros]:
  "calm r k s x \<Longrightarrow> calm r k s (on_stream_event ev x)"
  by (auto simp: on_stream_event_def Let_def split_beta split: StreamEvent.splits Delta.splits
        intro!: calm_intros)

lemma calm_on_user_message [calm_intros]:
  "calm r k s x \<Longrightarrow> calm r k s (on_user_message c sd x)"
  by (auto simp: on_user_message_def intro!: calm_intros)

lemma calm_on_assistant [calm_intros]:
  "calm r k s x \<Longrightarrow> calm r k s (on_assistant bs x)"
  by (auto simp: on_assistant_def Let_def intro!: calm_intros)

lemma calm_on_result [calm_intros]:
  "calm r k s x \<Longrightarrow> calm r k s (on_result d x)"
  by (auto simp: on_result_def Let_def split: option.splits list.splits intro!: calm_intros)

lemma calm_on_permission_cancelled [calm_intros]:
  "calm r k s x \<Longrightarrow> calm r k s (on_permission_cancelled x)"
  by (auto simp: on_permission_cancelled_def split: option.splits intro!: calm_intros)

lemma calm_on_status_change [calm_intros]:
  "calm r k s x \<Longrightarrow> calm r k s (on_status_change st x)"
  by (auto simp: on_status_change_def Let_def split: option.splits intro!: calm_intros)

lemma calm_renderMcpStatus [calm_intros]:
  "calm r k s x \<Longrightarrow> calm r k s (renderMcpStatus sv x)"
  by (auto simp: renderMcpStatus_def Let_def intro!: calm_intros)


lemma calm_on_permission_request:
  assumes "calm r k s x"
  shows "calm r (k + (if request_id req = r then 1 else 0)) s (on_permission_request req x)"
proof -
  let ?x1 = "removeLoader x"
  have v: "editor ?x1 = editor x" "kinds ?x1 = kinds x" "sent ?x1 = sent x"
    using sv_removeLoader[of x] by (simp_all add: same_view_def)
  have proj: "editor (on_permission_request req x) = editor x"
    "kinds (on_permission_request req x) = kinds x @ [KBanner req]"
    "sent (on_permission_request req x) = sent x"
    "focus (on_permission_request req x) = Some (length (kinds x))"
    using v
    by (auto simp: on_permission_request_def new_def insertBeforeEditor_def addChild_def
          setFocus_def kinds_def Let_def split: option.splits dest: map_eq_imp_length_eq)
  have "well_formed (on_permission_request req x)
      \<and> responses r (on_permission_request req x) + prompt_focused r (on_permission_request req x)
          \<le> responses r x + prompt_focused r x + (if request_id req = r then 1 else 0)"
    if "well_formed x"
    using that proj
    by (auto simp: wf_kinds prompt_kinds responses_def nth_append split: option.splits)
  with assms show ?thesis by (auto simp: calm_def)
qed

lemma calm_handleMessage_all:
  "(\<forall>k s0. calm r k s0 x \<longrightarrow> calm r (k + shown r m) s0 (handleMessage m x))"
  "(\<forall>k s0. calm r k s0 x \<longrightarrow> calm r (k + shown_history r ms) s0 (handleHistory ms x))"
  "(\<forall>k s0. calm r k s0 x \<longrightarrow> calm r (k + shown_replay r evs) s0 (handleReplay evs x))"
proof (induction m x and ms x and evs x rule: handleMessage_handleHistory_handleReplay.induct)
  case (7 q req s)
  then show ?case using calm_on_permission_request by simp
next
  case (20 m ms s)
  then show ?case by (simp add: add.assoc[symmetric])
next
  case (22 m q evs s)
  then show ?case by (simp add: add.assoc[symmetric])
qed (auto intro!: calm_intros)

lemma calm_handleMessage:
  "calm r k s0 x \<Longrightarrow> calm r (k + shown r m) s0 (handleMessage m x)"
  using calm_handleMessage_all(1) by blast

lemma calm_onRespond:
  assumes "calm r k s x" and "focus x = Some f" and "f < length (objs x)"
    and "objs x ! f = PermissionBanner req"
  shows "calm r k s (onRespond req b x)"
proof -
  let ?x1 = "sendPermissionResponse (request_id req) b x"
  have x1: "editor ?x1 = editor x" "kinds ?x1 = kinds x"
    "responses r ?x1 \<le> responses r x + (if request_id req = r then 1 else 0)"
    by (auto simp: sendPermissionResponse_def randomUUID_def send_def kinds_def responses_def
          is_response_def)
  have d: "editor (dropBanner ?x1) = editor ?x1" "kinds (dropBanner ?x1) = kinds ?x1"
    "sent (dropBanner ?x1) = sent ?x1"
    using sv_dropBanner[of ?x1] by (simp_all add: same_view_def)
  have proj: "editor (onRespond req b x) = editor x"
    "kinds (onRespond req b x) = kinds x @ [KOther]"
    "responses r (onRespond req b x) = responses r ?x1"
    "focus (onRespond req b x) = Some (editor x)"
    using x1(1,2) d
    by (simp_all add: onRespond_def Let_def view_startLoader view_setFocus responses_def)
  have p: "prompt_focused r x = (if request_id req = r then 1 else 0)"
    using assms(2-4) by (simp add: prompt_focused_def)
  have "well_formed (onRespond req b x)
      \<and> responses r (onRespond req b x) + prompt_focused r (onRespond req b x)
          \<le> responses r x + prompt_focused r x"
    if "well_formed x"
    using that proj x1(3) p
    by (auto simp: wf_kinds prompt_kinds nth_append split: option.splits)
  with assms(1) show ?thesis by (auto simp: calm_def)
qed


lemma calm_picker [calm_intros]:
  "calm r k s x \<Longrightarrow> calm r k s (picker_onSelect l p v x)"
  "calm r k s x \<Longrightarrow> calm r k s (picker_onCancel l x)"
  by (auto simp: picker_onSelect_def picker_onCancel_def Let_def split: Picker.splits
        intro!: calm_intros)

lemma calm_new_list:
  assumes "calm r k s x"
  shows "calm r k s (case new (SelectList p) x of (l, s1) \<Rightarrow> setFocus l (insertBeforeEditor l s1))"
proof -
  let ?x' = "case new (SelectList p) x of (l, s1) \<Rightarrow> setFocus l (insertBeforeEditor l s1)"
  have proj: "editor ?x' = editor x" "kinds ?x' = kinds x @ [KOther]" "sent ?x' = sent x"
    "focus ?x' = Some (length (kinds x))"
    by (auto simp: new_def insertBeforeEditor_def addChild_def setFocus_def kinds_def
          split: option.splits)
  show ?thesis
    by (rule calm_ext[OF assms proj(1,2)]) (simp_all add: proj responses_def)
qed

lemma calm_show [calm_intros]:
  "calm r k s x \<Longrightarrow> calm r k s (showHelp x)"
  "calm r k s x \<Longrightarrow> calm r k s (showMcp x)"
  "calm r k s x \<Longrightarrow> calm r k s (showStatus x)"
  "calm r k s x \<Longrightarrow> calm r k s (showModelPicker a x)"
  "calm r k s x \<Longrightarrow> calm r k s (showModePicker a x)"
  by (auto simp: showHelp_def showMcp_def showStatus_def showModelPicker_def showModePicker_def
        Let_def split: option.splits intro!: calm_intros calm_new_list)

lemma sv_trans: "same_view c b \<Longrightarrow> same_view b a \<Longrightarrow> same_view c a"
  by (simp add: same_view_def)

lemma sv_clear_loop:
  "same_view (foldl (\<lambda>a c. removeChild c (if is_loader a c then loader_stop c a else a)) x cs) x"
proof (induction cs arbitrary: x)
  case Nil
  show ?case by (simp add: same_view_def)
next
  case (Cons c cs)
  let ?x1 = "removeChild c (if is_loader x c then loader_stop c x else x)"
  have 1: "same_view ?x1 x"
    using sv_removeChild[of c "loader_stop c x"] sv_removeChild[of c x] sv_loader_stop[of c x]
    by (auto intro: sv_trans)
  have 2: "same_view (foldl (\<lambda>a c. removeChild c (if is_loader a c then loader_stop c a else a))
              ?x1 cs) ?x1"
    by (rule Cons.IH)
  show ?case using sv_trans[OF 2 1] by simp
qed

lemma calm_clearConversation [calm_intros]:
  "calm r k s x \<Longrightarrow> calm r k s (clearConversation x)"
  by (auto simp: clearConversation_def Let_def
        intro!: calm_intros same_view_calm[OF sv_clear_loop])

lemma calm_handleSlashCommand [calm_intros]:
  "calm r k s x \<Longrightarrow> calm r k s (snd (handleSlashCommand cmd x))"
  by (auto simp: handleSlashCommand_def Let_def intro!: calm_intros)

lemma calm_mcpAction:
  "calm r k s x \<Longrightarrow> mcpAction t x = Some x' \<Longrightarrow> calm r k s x'"
  by (auto simp: mcpAction_def Let_def split: option.splits if_splits prod.splits
        intro!: calm_intros)

lemma calm_onSubmit [calm_intros]:
  "calm r k s x \<Longrightarrow> calm r k s (onSubmit t x)"
  by (auto simp: onSubmit_def Let_def split_beta split: option.splits
        intro!: calm_intros elim: calm_mcpAction[rotated])

lemma calm_inputListener [calm_intros]:
  "calm r k s x \<Longrightarrow> calm r k s (snd (inputListener mk data now x))"
  by (auto simp: inputListener_def intro!: calm_intros)

lemma calm_focused [calm_intros]:
  "calm r k s x \<Longrightarrow> calm r k s (focused_handleInput mk data reaction x)"
  by (auto simp: focused_handleInput_def split: option.splits Component.splits Reaction.splits
        intro!: calm_intros calm_onRespond)

lemma calm_tui_handleInput [calm_intros]:
  "calm r k s x \<Longrightarrow> calm r k s (tui_handleInput mk data now reaction x)"
  by (auto simp: tui_handleInput_def split_beta intro!: calm_intros)

lemma calm_ws_on_message:
  "calm r k s x \<Longrightarrow>
   calm r (k + (case parse raw of Some (Message m) \<Rightarrow> shown r m | _ \<Rightarrow> 0)) s
     (ws_on_message parse raw x)"
  by (auto simp: ws_on_message_def Let_def split: option.splits Parsed.splits
        intro!: calm_handleMessage calm_intros)

lemma calm_app_step:
  assumes c: "calm r k s x"
  shows "calm r (k + shown_event parse r e) s (app_step mk parse x e)"
proof (cases e)
  case (WsMessage raw)
  have w: "calm r (k + shown_event parse r e) s x"
    using c by (rule calm_weaken) simp
  show ?thesis
    using calm_ws_on_message[OF c, of parse raw] w WsMessage
    by (simp add: app_step_def)
qed (use c in \<open>auto simp: app_step_def intro!: calm_intros\<close>)

lemma calm_app_run:
  "calm r k s x \<Longrightarrow> calm r (k + shown_in parse r evs) s (app_run mk parse evs x)"
proof (induction evs arbitrary: k x)
  case Nil
  then show ?case by (simp add: app_run_def shown_in_def)
next
  case (Cons e evs)
  from Cons.IH[OF calm_app_step[OF Cons.prems, of parse e mk]]
  show ?case by (simp add: app_run_def shown_in_def add.assoc)
qed

lemma remove1_inserted:
  "b \<notin> set xs \<Longrightarrow> remove1 b (take i xs @ b # drop i xs) = xs"
proof -
  assume n: "b \<notin> set xs"
  then have "b \<notin> set (take i xs)" by (meson in_set_takeD)
  then have "remove1 b (take i xs @ b # drop i xs) = take i xs @ remove1 b (b # drop i xs)"
    by (simp add: remove1_append)
  then show ?thesis by simp
qed

lemma remove1_appended: "b \<notin> set xs \<Longrightarrow> remove1 b (xs @ [b]) = xs"
  by (simp add: remove1_append)

lemma removeLoader_frame:
  "sent (removeLoader s) = sent s" "ws (removeLoader s) = ws s" "uuids (removeLoader s) = uuids s"
  "editor (removeLoader s) = editor s" "length (objs (removeLoader s)) = length (objs s)"
  "exited (removeLoader s) = exited s" "isRunning (removeLoader s) = isRunning s"
  "set (children (removeLoader s)) \<subseteq> set (children s)"
  by (auto simp: removeLoader_def loader_stop_def setObj_def removeChild_def
        split: option.splits Component.splits dest!: set_remove1_subset[THEN subsetD])

lemma shown_prompt:
  fixes s0 :: app and req :: PermissionRequest
  defines "b \<equiv> length (objs s0)"
  defines "s1 \<equiv> on_permission_request req s0"
  assumes ch: "\<forall>c \<in> set (children s0). c < length (objs s0)"
  shows "focus s1 = Some b" "b < length (objs s1)" "objs s1 ! b = PermissionBanner req"
    "permissionBanner s1 = Some b" "sent s1 = sent s0" "ws s1 = ws s0" "uuids s1 = uuids s0"
    "editor s1 = editor s0" "exited s1 = exited s0" "isRunning s1 = isRunning s0"
    "length (objs s1) = Suc b"
    "remove1 b (children s1) = children (removeLoader s0)"
proof -
  let ?x = "removeLoader s0"
  have nb: "b \<notin> set (children ?x)"
    using ch removeLoader_frame(8)[of s0] by (auto simp: b_def)
  show "focus s1 = Some b" "b < length (objs s1)" "objs s1 ! b = PermissionBanner req"
    "permissionBanner s1 = Some b" "sent s1 = sent s0" "ws s1 = ws s0" "uuids s1 = uuids s0"
    "editor s1 = editor s0" "exited s1 = exited s0" "isRunning s1 = isRunning s0"
    "length (objs s1) = Suc b"
    by (auto simp: s1_def b_def on_permission_request_def new_def insertBeforeEditor_def
          addChild_def setFocus_def removeLoader_frame nth_append split: option.splits)
  show "remove1 b (children s1) = children ?x"
    using nb
    by (auto simp: s1_def b_def on_permission_request_def new_def insertBeforeEditor_def
          addChild_def setFocus_def removeLoader_frame remove1_inserted remove1_appended
          split: option.splits)
qed

lemma shown_in_keys: "shown_in parse r (key_events ks) = 0"
  by (induction ks) (auto simp: shown_in_def key_events_def)

lemma responses_app_run:
  assumes "well_formed s"
  shows "responses r (app_run mk parse evs s) + prompt_focused r (app_run mk parse evs s)
           \<le> responses r s + prompt_focused r s + shown_in parse r evs"
proof -
  have "calm r 0 s s" by (rule calm_refl)
  then have "calm r (0 + shown_in parse r evs) s (app_run mk parse evs s)"
    by (rule calm_app_run)
  with assms show ?thesis by (simp add: calm_def)
qed

text \<open>
  C4, as amended. For every permission request shown to the user, at most one permission
  response is sent for each time its prompt is shown. In a well-formed state whose
  children are existing components, when a prompt for a request is shown and the user
  answers it (y, Enter, a, n, or Escape while no turn is running), exactly that one
  response goes out if the socket is open (none if it is not), the prompt is removed from
  the screen and forgotten, and the focus returns to the editor. Whatever
  happens afterwards, the responses sent for that request identifier grow by no more than
  the number of times a prompt for it is shown again; in particular no sequence of later
  key presses produces a second response. In general, over any run of the client from a
  well-formed state, the responses for a request identifier are at most those already
  sent, plus one if its prompt has the focus, plus one for each time a prompt for it is
  shown.
\<close>

theorem one_response_per_prompt:
  assumes w: "well_formed s0" and ch: "\<forall>c \<in> set (children s0). c < length (objs s0)"
    and ex: "\<not> exited s0"
    and key: "banner_handleInput mk data = Some behavior"
    and esc: "mk data ''escape'' \<longrightarrow> \<not> isRunning s0" and cc: "\<not> mk data ''ctrl+c''"
  shows "sent (prompt_then_key mk parse req data now reaction s0)
           = sent s0 @ (if ws s0 = Some OPEN
                        then [CPermissionResponse (request_id req) behavior (uuids s0)]
                        else [])
    \<and> permissionBanner (prompt_then_key mk parse req data now reaction s0) = None
    \<and> focus (prompt_then_key mk parse req data now reaction s0) = Some (editor s0)
    \<and> length (objs s0) \<notin> set (children (prompt_then_key mk parse req data now reaction s0))
    \<and> responses (request_id req)
          (app_run mk parse evs (prompt_then_key mk parse req data now reaction s0))
        \<le> responses (request_id req) (prompt_then_key mk parse req data now reaction s0)
            + shown_in parse (request_id req) evs
    \<and> responses (request_id req)
          (app_run mk parse (key_events ks) (prompt_then_key mk parse req data now reaction s0))
        \<le> responses (request_id req) s0 + 1
    \<and> responses r (app_run mk parse evs s0)
        \<le> responses r s0 + prompt_focused r s0 + shown_in parse r evs"
proof -
  let ?b = "length (objs s0)"
  let ?r = "request_id req"
  define s1 where "s1 = handleMessage (Msg None (PermissionRequestMsg req)) s0"
  define s2 where "s2 = prompt_then_key mk parse req data now reaction s0"
  have s2_def': "s2 = app_step mk parse s1 (Key data now reaction)"
    by (simp add: s2_def prompt_then_key_def s1_def)
  have s1: "s1 = on_permission_request req s0" by (simp add: s1_def)
  note p = shown_prompt[OF ch, of req, folded s1]
  have lis: "inputListener mk data now s1 = (False, s1)"
    using esc cc p(10) by (auto simp: inputListener_def)
  have s2: "s2 = onRespond req behavior s1"
    using lis ex p key
    by (simp add: s2_def' app_step_def tui_handleInput_def focused_handleInput_def)
  let ?x1 = "sendPermissionResponse ?r behavior s1"
  have x1: "children ?x1 = children s1" "permissionBanner ?x1 = Some ?b" "editor ?x1 = editor s0"
    "length (objs ?x1) = Suc ?b"
    "sent ?x1 = sent s0 @ (if ws s0 = Some OPEN
                           then [CPermissionResponse ?r behavior (uuids s0)] else [])"
    using p by (auto simp: sendPermissionResponse_def randomUUID_def send_def)
  have d: "children (dropBanner ?x1) = children (removeLoader s0)"
    "permissionBanner (dropBanner ?x1) = None" "sent (dropBanner ?x1) = sent ?x1"
    "editor (dropBanner ?x1) = editor s0" "length (objs (dropBanner ?x1)) = Suc ?b"
    using x1 p(12) by (auto simp: dropBanner_def removeChild_def)
  have nb: "?b \<notin> set (children (removeLoader s0))"
    using ch removeLoader_frame(8)[of s0] by auto
  have a: "sent s2 = sent s0 @ (if ws s0 = Some OPEN
                           then [CPermissionResponse ?r behavior (uuids s0)] else [])"
    using d(3) x1(5) by (simp add: s2 onRespond_def Let_def view_startLoader view_setFocus)
  have b: "permissionBanner s2 = None"
    using d(2)
    by (auto simp: s2 onRespond_def Let_def startLoader_def new_def insertBeforeEditor_def
          addChild_def setFocus_def split: option.splits)
  have c: "focus s2 = Some (editor s0)"
    using d(4) by (simp add: s2 onRespond_def Let_def view_startLoader view_setFocus)
  have dd: "?b \<notin> set (children s2)"
    using nb d(1,5)
    by (auto simp: s2 onRespond_def Let_def startLoader_def new_def insertBeforeEditor_def
          addChild_def setFocus_def split: option.splits dest: in_set_takeD in_set_dropD)
  have c0: "calm ?r 0 s0 s0" by (rule calm_refl)
  have c1: "calm ?r (0 + shown ?r (Msg None (PermissionRequestMsg req))) s0 s1"
    unfolding s1_def by (rule calm_handleMessage[OF c0])
  have c2: "calm ?r 1 s0 s2"
    unfolding s2_def' using calm_app_step[OF c1, of parse "Key data now reaction" mk] by simp
  from c2 w have w2: "well_formed s2" and le2: "responses ?r s2 + prompt_focused ?r s2
      \<le> responses ?r s0 + prompt_focused ?r s0 + 1"
    by (auto simp: calm_def)
  have e2: "editor s2 = editor s0"
    using d(4) by (simp add: s2 onRespond_def Let_def view_startLoader view_setFocus)
  have pf2: "prompt_focused ?r s2 = 0"
    using w2 c e2 by (auto simp: well_formed_def prompt_focused_def)
  have run: "responses ?r (app_run mk parse evs' s2) \<le> responses ?r s2 + shown_in parse ?r evs'"
    for evs'
    using responses_app_run[OF w2, of ?r mk parse evs'] pf2 by simp
  have r2: "responses ?r s2 \<le> responses ?r s0 + 1"
    using a by (simp add: responses_def)
  have keys: "responses ?r (app_run mk parse (key_events ks) s2) \<le> responses ?r s0 + 1"
    using run[of "key_events ks"] r2 by (simp add: shown_in_keys)
  have gen: "responses r (app_run mk parse evs s0)
        \<le> responses r s0 + prompt_focused r s0 + shown_in parse r evs"
    using responses_app_run[OF w, of r mk parse evs] by simp
  show ?thesis using a b c dd run[of evs] keys gen unfolding s2_def by simp
qed

lemmas eval_defs = app_run_def app_step_def connect_def onStatusChange_def ws_on_open_def
  ws_on_close_def scheduleReconnect_def ws_on_message_def demo_parse_def
  send_def insertNew_def new_def insertBeforeEditor_def app0_def Let_def
  tui_handleInput_def inputListener_def rawKey_def focused_handleInput_def
  banner_handleInput_def onRespond_def sendPermissionResponse_def randomUUID_def
  dropBanner_def removeChild_def startLoader_def setFocus_def on_permission_request_def
  removeLoader_def demo_request_def

theorem one_response_per_prompt_witness:
  "well_formed demo_open
   \<and> children demo_open = [0, 1, 2, 3] \<and> length (objs demo_open) = 4
   \<and> \<not> exited demo_open
   \<and> banner_handleInput rawKey ''y'' = Some Allow
   \<and> \<not> rawKey ''y'' ''escape'' \<and> \<not> rawKey ''y'' ''ctrl+c''
   \<and> sent (prompt_then_key rawKey demo_parse demo_request ''y'' 0 NoCallback demo_open)
       = [CSessionSubscribe 0 ''tui-1'', CPermissionResponse ''req-1'' Allow 0]
   \<and> responses ''req-1''
         (app_run rawKey demo_parse (key_events [(''y'', 1, NoCallback), (''n'', 2, NoCallback)])
            (prompt_then_key rawKey demo_parse demo_request ''y'' 0 NoCallback demo_open))
       \<le> 1"
proof -
  have h: "well_formed demo_open" "children demo_open = [0, 1, 2, 3]" "length (objs demo_open) = 4"
    "\<not> exited demo_open" "banner_handleInput rawKey ''y'' = Some Allow"
    "\<not> rawKey ''y'' ''escape''" "\<not> rawKey ''y'' ''ctrl+c''"
    "ws demo_open = Some OPEN" "uuids demo_open = 0" "sent demo_open = [CSessionSubscribe 0 ''tui-1'']"
    by (simp_all add: demo_open_def well_formed_def eval_defs)
  have ch: "\<forall>c \<in> set (children demo_open). c < length (objs demo_open)"
    by (simp add: h)
  have esc: "rawKey ''y'' ''escape'' \<longrightarrow> \<not> isRunning demo_open"
    by (simp add: h)
  have r0: "responses ''req-1'' demo_open = 0"
    by (simp add: responses_def h is_response_def)
  from one_response_per_prompt[OF h(1) ch h(4,5) esc h(7),
      of demo_parse demo_request 0 NoCallback "[]" "[(''y'', 1, NoCallback), (''n'', 2, NoCallback)]"]
  show ?thesis using h r0 by (simp add: demo_request_def)
qed

lemma prompt_then_key_frame:
  assumes ex: "\<not> exited s0" and key: "banner_handleInput mk data = Some behavior"
    and esc: "mk data ''escape'' \<longrightarrow> \<not> isRunning s0" and cc: "\<not> mk data ''ctrl+c''"
  shows "sent (prompt_then_key mk parse req data now reaction s0)
           = sent s0 @ (if ws s0 = Some OPEN
                        then [CPermissionResponse (request_id req) behavior (uuids s0)]
                        else [])"
    and "ws (prompt_then_key mk parse req data now reaction s0) = ws s0"
    and "uuids (prompt_then_key mk parse req data now reaction s0) = Suc (uuids s0)"
    and "exited (prompt_then_key mk parse req data now reaction s0) = exited s0"
proof -
  let ?b = "length (objs s0)"
  define s1 where "s1 = on_permission_request req s0"
  have p: "focus s1 = Some ?b" "?b < length (objs s1)" "objs s1 ! ?b = PermissionBanner req"
    "sent s1 = sent s0" "ws s1 = ws s0" "uuids s1 = uuids s0" "exited s1 = exited s0"
    "isRunning s1 = isRunning s0"
    by (auto simp: s1_def on_permission_request_def new_def insertBeforeEditor_def
          addChild_def setFocus_def removeLoader_frame nth_append split: option.splits)
  have lis: "inputListener mk data now s1 = (False, s1)"
    using esc cc p(8) by (auto simp: inputListener_def)
  have s2: "prompt_then_key mk parse req data now reaction s0 = onRespond req behavior s1"
    using lis ex p key
    by (simp add: prompt_then_key_def s1_def[symmetric] app_step_def tui_handleInput_def
          focused_handleInput_def)
  have fr: "sent (onRespond req behavior x)
              = sent x @ (if ws x = Some OPEN
                          then [CPermissionResponse (request_id req) behavior (uuids x)] else [])"
    "ws (onRespond req behavior x) = ws x" "uuids (onRespond req behavior x) = Suc (uuids x)"
    "exited (onRespond req behavior x) = exited x" for x
    by (auto simp: onRespond_def sendPermissionResponse_def randomUUID_def send_def Let_def
          dropBanner_def removeChild_def startLoader_def new_def insertBeforeEditor_def
          addChild_def setFocus_def split: option.splits)
  show "sent (prompt_then_key mk parse req data now reaction s0)
           = sent s0 @ (if ws s0 = Some OPEN
                        then [CPermissionResponse (request_id req) behavior (uuids s0)]
                        else [])"
    and "ws (prompt_then_key mk parse req data now reaction s0) = ws s0"
    and "uuids (prompt_then_key mk parse req data now reaction s0) = Suc (uuids s0)"
    and "exited (prompt_then_key mk parse req data now reaction s0) = exited s0"
    by (simp_all add: s2 fr p)
qed

text \<open>
  The claim as first stated counts responses per request identifier, and so fails: the
  client keeps no record of the requests it has answered. The prompt for request
  \<^verbatim>\<open>req-1\<close> is shown and answered with y; the same request is delivered again, a new
  prompt is shown, and y answers it again: two responses for \<^verbatim>\<open>req-1\<close> have gone out.
\<close>

theorem one_response_per_prompt_counterexample:
  "sent (prompt_then_key rawKey demo_parse demo_request ''y'' 0 NoCallback demo_open)
     = [CSessionSubscribe 0 ''tui-1'', CPermissionResponse ''req-1'' Allow 0]
   \<and> sent (prompt_then_key rawKey demo_parse demo_request ''y'' 1 NoCallback
           (prompt_then_key rawKey demo_parse demo_request ''y'' 0 NoCallback demo_open))
     = [CSessionSubscribe 0 ''tui-1'',
        CPermissionResponse ''req-1'' Allow 0, CPermissionResponse ''req-1'' Allow 1]
   \<and> responses ''req-1''
        (prompt_then_key rawKey demo_parse demo_request ''y'' 1 NoCallback
           (prompt_then_key rawKey demo_parse demo_request ''y'' 0 NoCallback demo_open)) = 2"
proof -
  let ?s1 = "prompt_then_key rawKey demo_parse demo_request ''y'' 0 NoCallback demo_open"
  have h: "\<not> exited demo_open" "banner_handleInput rawKey ''y'' = Some Allow"
    "rawKey ''y'' ''escape'' \<longrightarrow> \<not> isRunning demo_open"
    "rawKey ''y'' ''escape'' \<longrightarrow> \<not> isRunning ?s1" "\<not> rawKey ''y'' ''ctrl+c''"
    by (simp_all add: demo_open_def connect_def ws_on_open_def onStatusChange_def send_def
          app0_def banner_handleInput_def rawKey_def Let_def)
  have o: "ws demo_open = Some OPEN" "uuids demo_open = 0"
    "sent demo_open = [CSessionSubscribe 0 ''tui-1'']" "request_id demo_request = ''req-1''"
    by (simp_all add: demo_open_def connect_def ws_on_open_def onStatusChange_def send_def
          app0_def demo_request_def Let_def)
  note f1 = prompt_then_key_frame[OF h(1,2,3,5), of demo_parse demo_request 0 NoCallback]
  have e1: "\<not> exited ?s1" using f1(4) h(1) by simp
  note f2 = prompt_then_key_frame[OF e1 h(2,4,5), of demo_parse demo_request 1 NoCallback]
  have a: "sent ?s1 = [CSessionSubscribe 0 ''tui-1'', CPermissionResponse ''req-1'' Allow 0]"
    by (simp add: f1(1) o)
  have b: "sent (prompt_then_key rawKey demo_parse demo_request ''y'' 1 NoCallback ?s1)
     = [CSessionSubscribe 0 ''tui-1'',
        CPermissionResponse ''req-1'' Allow 0, CPermissionResponse ''req-1'' Allow 1]"
    by (simp add: f2(1) f1(2,3) a o)
  have c: "responses ''req-1'' (prompt_then_key rawKey demo_parse demo_request ''y'' 1 NoCallback ?s1)
             = 2"
    by (simp add: responses_def b is_response_def)
  show ?thesis using a b c by (intro conjI)
qed

subsection \<open>Interrupting a running turn\<close>

lemma isRunning_result: "isRunning (on_result d a) = False"
  by (auto simp: on_result_def Let_def insertNew_def new_def insertBeforeEditor_def addChild_def
        dropBanner_def setFocus_def removeChild_def
      split: option.splits list.splits)

lemma isRunning_idle: "isRunning (on_status_change (Some StatusIdle) a) = False"
  by (auto simp: on_status_change_def Let_def)

text \<open>
  The interrupt frames sent change only at a key press: a press of Escape or of Ctrl+C
  adds at most one, and no other event (another key with whatever callback of the editor
  or a picker, the socket opening, a frame, the socket closing, a timer) adds or removes
  any.
\<close>

lemma sent_handleMessage: "sent (handleMessage m a) = sent a"
  using cp_handleMessage(1)[of m a] by (simp add: client_part_def)

lemma intr_sent: "sent x' = sent x \<Longrightarrow> interrupts x' = interrupts x"
  by (simp add: interrupts_def)

lemma intr_sv: "same_view x' x \<Longrightarrow> interrupts x' = interrupts x"
  by (simp add: interrupts_def same_view_def)

lemmas intr_prims [simp] = sv_prims[THEN intr_sv]

lemma intr_send:
  "interrupts (send m x)
     = interrupts x + (if is_interrupt m \<and> ws x = Some OPEN then 1 else 0)"
  by (simp add: interrupts_def send_def)

lemma intr_view [simp]:
  "interrupts (insertNew c x) = interrupts x"
  "interrupts (startLoader l x) = interrupts x"
  "interrupts (setFocus f x) = interrupts x"
  "interrupts (snd (randomUUID x)) = interrupts x"
  by (simp_all add: interrupts_def view_insertNew view_startLoader view_setFocus view_uuid)

lemma intr_fields [simp]:
  "interrupts (x\<lparr>locallyTriggered := b\<rparr>) = interrupts x"
  "interrupts (x\<lparr>isRunning := b\<rparr>) = interrupts x"
  "interrupts (x\<lparr>disableSubmit := b\<rparr>) = interrupts x"
  "interrupts (x\<lparr>mcpTimers := n\<rparr>) = interrupts x"
  "interrupts (x\<lparr>lastCtrlC := t\<rparr>) = interrupts x"
  "interrupts (x\<lparr>lastSeq := q\<rparr>) = interrupts x"
  "interrupts (x\<lparr>reconnectTimer := b\<rparr>) = interrupts x"
  by (simp_all add: interrupts_def)

lemma intr_client [simp]:
  "interrupts (sendUserMessage t x) = interrupts x"
  "interrupts (sendPermissionResponse t bh x) = interrupts x"
  "interrupts (setModel t x) = interrupts x"
  "interrupts (setPermissionMode t x) = interrupts x"
  "interrupts (mcpGetStatus x) = interrupts x"
  "interrupts (mcpToggle t b x) = interrupts x"
  "interrupts (mcpReconnect t x) = interrupts x"
  "interrupts (ws_on_open x) = interrupts x"
  by (simp_all add: sendUserMessage_def sendPermissionResponse_def setModel_def
        setPermissionMode_def mcpGetStatus_def mcpToggle_def mcpReconnect_def ws_on_open_def
        onStatusChange_def randomUUID_def split_beta Let_def intr_send)
     (simp_all add: interrupts_def)

lemma intr_interrupt:
  "interrupts (interrupt x) = interrupts x + (if ws x = Some OPEN then 1 else 0)"
  by (simp add: interrupt_def randomUUID_def intr_send) (simp add: interrupts_def)

lemma intr_onRespond [simp]: "interrupts (onRespond req b x) = interrupts x"
  by (simp add: onRespond_def Let_def)

lemma intr_picker [simp]:
  "interrupts (picker_onSelect l p v x) = interrupts x"
  "interrupts (picker_onCancel l x) = interrupts x"
  by (simp_all add: picker_onSelect_def picker_onCancel_def Let_def split: Picker.splits)

lemma intr_new_list [simp]:
  "interrupts (case new (SelectList p) x of (l, s1) \<Rightarrow> setFocus l (insertBeforeEditor l s1))
     = interrupts x"
  by (simp add: new_def split_beta) (simp add: interrupts_def)

lemma intr_show [simp]:
  "interrupts (showHelp x) = interrupts x"
  "interrupts (showMcp x) = interrupts x"
  "interrupts (showStatus x) = interrupts x"
  "interrupts (showModelPicker a x) = interrupts x"
  "interrupts (showModePicker a x) = interrupts x"
  by (simp_all add: showHelp_def showMcp_def showStatus_def showModelPicker_def
        showModePicker_def Let_def split: option.splits)

lemma intr_clearConversation [simp]: "interrupts (clearConversation x) = interrupts x"
  by (simp add: clearConversation_def Let_def intr_sv[OF sv_clear_loop])

lemma intr_handleSlashCommand [simp]:
  "interrupts (snd (handleSlashCommand cmd x)) = interrupts x"
  by (simp add: handleSlashCommand_def Let_def)

lemma intr_mcpAction: "mcpAction t x = Some x' \<Longrightarrow> interrupts x' = interrupts x"
  by (auto simp: mcpAction_def Let_def split: option.splits if_splits prod.splits)

lemma intr_onSubmit [simp]: "interrupts (onSubmit t x) = interrupts x"
  by (auto simp: onSubmit_def Let_def split_beta intr_mcpAction split: option.splits)

lemma intr_focused [simp]:
  "interrupts (focused_handleInput mk data reaction x) = interrupts x"
  by (simp add: focused_handleInput_def
        split: option.splits Component.splits Reaction.splits)

lemma intr_key:
  "interrupts x \<le> interrupts (tui_handleInput mk data now reaction x)"
  "interrupts (tui_handleInput mk data now reaction x)
     \<le> interrupts x + (if mk data ''escape'' \<or> mk data ''ctrl+c'' then 1 else 0)"
  by (auto simp: tui_handleInput_def inputListener_def intr_interrupt)

lemma intr_ws_on_message [simp]: "interrupts (ws_on_message parse raw x) = interrupts x"
  by (simp add: ws_on_message_def Let_def intr_sent[OF sent_handleMessage]
        split: option.splits Parsed.splits)

lemma intr_app_step:
  "interrupts x \<le> interrupts (app_step mk parse x e)
   \<and> interrupts (app_step mk parse x e) \<le> interrupts x + interrupt_press mk e"
proof (cases e)
  case (Key data now reaction)
  show ?thesis
    using intr_key[where x = x and mk = mk and data = data and now = now and reaction = reaction]
    by (auto simp: Key app_step_def split: if_splits)
qed (simp_all add: app_step_def)

lemma intr_app_run:
  "interrupts x \<le> interrupts (app_run mk parse evs x)
   \<and> interrupts (app_run mk parse evs x) \<le> interrupts x + interrupt_presses mk evs"
proof (induction evs arbitrary: x)
  case Nil
  show ?case by (simp add: app_run_def interrupt_presses_def)
next
  case (Cons e evs)
  have "app_run mk parse (e # evs) x = app_run mk parse evs (app_step mk parse x e)"
    by (simp add: app_run_def)
  with Cons[of "app_step mk parse x e"] intr_app_step[where x = x and mk = mk and parse = parse and e = e]
  show ?case by (simp add: interrupt_presses_def)
qed

text \<open>
  C6, as amended. While a turn is running, the interrupt key (Escape, or Ctrl+C that is
  not a second press within half a second) issues the interrupt in the same step: the
  state after the key is the state before it with the interrupt frame added to the frames
  sent if the socket is open, and with no frame added if it is not (and, either way, one
  request identifier used and, for Ctrl+C, the time of the press noted). There is no
  queue of pending input that the frame could wait in, and a frame that was dropped is
  not kept for later: over every run of events that follows, the interrupt frames sent
  are at least those sent before plus this one if it went out, and at most that plus one
  for each later press of Escape or Ctrl+C. Nothing waits for an acknowledgement: the turn
  still counts as running after the key, and the result or idle status that follows is
  what ends it.
\<close>

theorem interrupt_sent_immediately:
  assumes "isRunning s" and "\<not> exited s"
    and "mk data ''escape'' \<or> (mk data ''ctrl+c'' \<and> \<not> now - lastCtrlC s < 500)"
  shows "app_step mk parse s (Key data now r)
           = (if mk data ''escape'' then s else s\<lparr>lastCtrlC := now\<rparr>)
               \<lparr>sent := sent s @ (if ws s = Some OPEN then [CInterrupt (uuids s)] else []),
                uuids := Suc (uuids s)\<rparr>
    \<and> interrupts s + (if ws s = Some OPEN then 1 else 0)
        \<le> interrupts (app_run mk parse evs (app_step mk parse s (Key data now r)))
    \<and> interrupts (app_run mk parse evs (app_step mk parse s (Key data now r)))
        \<le> interrupts s + (if ws s = Some OPEN then 1 else 0) + interrupt_presses mk evs
    \<and> isRunning (app_step mk parse s (Key data now r))
    \<and> \<not> isRunning (handleMessage (Msg q (Result d)) (app_step mk parse s (Key data now r)))
    \<and> \<not> isRunning (handleMessage (Msg q (StatusChange (Some StatusIdle)))
                      (app_step mk parse s (Key data now r)))"
proof -
  have step: "app_step mk parse s (Key data now r)
           = (if mk data ''escape'' then s else s\<lparr>lastCtrlC := now\<rparr>)
               \<lparr>sent := sent s @ (if ws s = Some OPEN then [CInterrupt (uuids s)] else []),
                uuids := Suc (uuids s)\<rparr>"
    using assms
    by (auto simp: app_step_def tui_handleInput_def inputListener_def interrupt_def
          randomUUID_def send_def)
  have run: "isRunning (app_step mk parse s (Key data now r))"
    using assms(1) by (simp add: step)
  have one: "interrupts (app_step mk parse s (Key data now r))
        = interrupts s + (if ws s = Some OPEN then 1 else 0)"
    by (simp add: step interrupts_def)
  have later: "interrupts s + (if ws s = Some OPEN then 1 else 0)
        \<le> interrupts (app_run mk parse evs (app_step mk parse s (Key data now r)))"
    "interrupts (app_run mk parse evs (app_step mk parse s (Key data now r)))
        \<le> interrupts s + (if ws s = Some OPEN then 1 else 0) + interrupt_presses mk evs"
    using intr_app_run[where x = "app_step mk parse s (Key data now r)" and mk = mk and parse = parse and evs = evs]
    by (simp_all only: one)
  have fin: "\<not> isRunning (handleMessage (Msg q (Result d)) (app_step mk parse s (Key data now r)))"
    "\<not> isRunning (handleMessage (Msg q (StatusChange (Some StatusIdle)))
                      (app_step mk parse s (Key data now r)))"
    by (simp_all add: isRunning_result isRunning_idle)
  show ?thesis
    using step run later fin by (intro conjI)
qed

text \<open>
  With the socket open the frame goes out and stays the only one through a frame, a
  closing and reopening of the socket and another key; with the socket closed nothing
  goes out, and nothing does after the socket has reopened.
\<close>

theorem interrupt_sent_immediately_witness:
  "isRunning demo_running \<and> \<not> exited demo_running \<and> ws demo_running = Some OPEN
   \<and> rawKey [CHR 0x1B] ''escape''
   \<and> sent (app_step rawKey demo_parse demo_running (Key [CHR 0x1B] 1000 NoCallback))
       = [CSessionSubscribe 0 ''tui-1'', CUserMessage ''hi'' 0, CInterrupt 1]
   \<and> interrupts (app_run rawKey demo_parse
          [WsMessage ''connected@7'', WsClose, ReconnectTimer, WsOpen, Key ''x'' 2000 NoCallback]
          (app_step rawKey demo_parse demo_running (Key [CHR 0x1B] 1000 NoCallback))) = 1
   \<and> isRunning (ws_on_close demo_running) \<and> \<not> exited (ws_on_close demo_running)
   \<and> ws (ws_on_close demo_running) = None
   \<and> sent (app_step rawKey demo_parse (ws_on_close demo_running) (Key [CHR 0x1B] 1000 NoCallback))
       = [CSessionSubscribe 0 ''tui-1'', CUserMessage ''hi'' 0]
   \<and> interrupts (app_run rawKey demo_parse
          [ReconnectTimer, WsOpen, WsMessage ''connected@7'', Key ''x'' 2000 NoCallback]
          (app_step rawKey demo_parse (ws_on_close demo_running) (Key [CHR 0x1B] 1000 NoCallback)))
       = 0"
proof -
  let ?ea = "[WsMessage ''connected@7'', WsClose, ReconnectTimer, WsOpen, Key ''x'' 2000 NoCallback]"
  let ?eb = "[ReconnectTimer, WsOpen, WsMessage ''connected@7'', Key ''x'' 2000 NoCallback]"
  have k: "rawKey [CHR 0x1B] ''escape''" by (simp add: rawKey_def)
  have st: "isRunning demo_running" "\<not> exited demo_running" "ws demo_running = Some OPEN"
    "sent demo_running = [CSessionSubscribe 0 ''tui-1'', CUserMessage ''hi'' 0]"
    "uuids demo_running = 1"
    by (simp_all add: demo_running_def app_run_def app_step_def connect_def onStatusChange_def
          ws_on_open_def send_def tui_handleInput_def inputListener_def rawKey_def
          focused_handleInput_def onSubmit_def trim_def space_len_def js_spaces_def mcpAction_def
          mcpActionMatch_def sendUserMessage_def randomUUID_def insertNew_def new_def
          insertBeforeEditor_def startLoader_def app0_def Let_def)
  have cl: "isRunning (ws_on_close demo_running)" "\<not> exited (ws_on_close demo_running)"
    "ws (ws_on_close demo_running) = None"
    "sent (ws_on_close demo_running) = [CSessionSubscribe 0 ''tui-1'', CUserMessage ''hi'' 0]"
    using st by (simp_all add: ws_on_close_def scheduleReconnect_def onStatusChange_def)
  have i0: "interrupts demo_running = 0" "interrupts (ws_on_close demo_running) = 0"
    by (simp_all add: interrupts_def st cl)
  have p0: "interrupt_presses rawKey ?ea = 0" "interrupt_presses rawKey ?eb = 0"
    by (simp_all add: interrupt_presses_def rawKey_def)
  have e: "rawKey [CHR 0x1B] ''escape''
             \<or> (rawKey [CHR 0x1B] ''ctrl+c'' \<and> \<not> 1000 - lastCtrlC demo_running < 500)"
    "rawKey [CHR 0x1B] ''escape''
             \<or> (rawKey [CHR 0x1B] ''ctrl+c'' \<and> \<not> 1000 - lastCtrlC (ws_on_close demo_running) < 500)"
    using k by simp_all
  note a = interrupt_sent_immediately[of demo_running rawKey "[CHR 0x1B]" 1000
      demo_parse NoCallback ?ea, OF st(1,2) e(1)]
  note b = interrupt_sent_immediately[of "ws_on_close demo_running" rawKey "[CHR 0x1B]" 1000
      demo_parse NoCallback ?eb, OF cl(1,2) e(2)]
  have a1: "sent (app_step rawKey demo_parse demo_running (Key [CHR 0x1B] 1000 NoCallback))
       = [CSessionSubscribe 0 ''tui-1'', CUserMessage ''hi'' 0, CInterrupt 1]"
    by (simp add: a[THEN conjunct1] k st)
  have a2: "interrupts (app_run rawKey demo_parse ?ea
          (app_step rawKey demo_parse demo_running (Key [CHR 0x1B] 1000 NoCallback))) = 1"
    using a[THEN conjunct2, THEN conjunct1] a[THEN conjunct2, THEN conjunct2, THEN conjunct1]
    by (simp only: st i0 p0) simp
  have b1: "sent (app_step rawKey demo_parse (ws_on_close demo_running) (Key [CHR 0x1B] 1000 NoCallback))
       = [CSessionSubscribe 0 ''tui-1'', CUserMessage ''hi'' 0]"
    by (simp add: b[THEN conjunct1] k cl)
  have b2: "interrupts (app_run rawKey demo_parse ?eb
          (app_step rawKey demo_parse (ws_on_close demo_running) (Key [CHR 0x1B] 1000 NoCallback)))
       = 0"
    using b[THEN conjunct2, THEN conjunct1] b[THEN conjunct2, THEN conjunct2, THEN conjunct1]
    by (simp only: cl i0 p0) simp
  show ?thesis using k st(1-3) cl(1-3) a1 a2 b1 b2 by (intro conjI)
qed

text \<open>
  The claim as first stated fails when the socket is not open: the turn is running, the
  user presses Escape, and no interrupt goes out, neither then nor once the socket has
  reopened.
\<close>

theorem interrupt_sent_immediately_counterexample:
  "isRunning (app_run rawKey demo_parse [WsOpen, Key [CHR 0x0D] 0 (Submit ''hi''), WsClose]
               (connect (app0 ''S1'' ''tui-1'')))
   \<and> sent (app_run rawKey demo_parse [WsOpen, Key [CHR 0x0D] 0 (Submit ''hi''), WsClose]
               (connect (app0 ''S1'' ''tui-1'')))
       = [CSessionSubscribe 0 ''tui-1'', CUserMessage ''hi'' 0]
   \<and> sent (app_run rawKey demo_parse
              [WsOpen, Key [CHR 0x0D] 0 (Submit ''hi''), WsClose, Key [CHR 0x1B] 1000 NoCallback]
              (connect (app0 ''S1'' ''tui-1'')))
       = [CSessionSubscribe 0 ''tui-1'', CUserMessage ''hi'' 0]
   \<and> sent (app_run rawKey demo_parse
              [WsOpen, Key [CHR 0x0D] 0 (Submit ''hi''), WsClose, Key [CHR 0x1B] 1000 NoCallback,
               ReconnectTimer, WsOpen]
              (connect (app0 ''S1'' ''tui-1'')))
       = [CSessionSubscribe 0 ''tui-1'', CUserMessage ''hi'' 0, CSessionSubscribe 0 ''tui-1'']"
  by (simp add: app_run_def app_step_def connect_def onStatusChange_def ws_on_open_def
          ws_on_close_def scheduleReconnect_def interrupt_def
          send_def tui_handleInput_def inputListener_def rawKey_def focused_handleInput_def
          onSubmit_def trim_def space_len_def js_spaces_def mcpAction_def mcpActionMatch_def
          sendUserMessage_def randomUUID_def insertNew_def new_def insertBeforeEditor_def
          startLoader_def app0_def Let_def)

end
